theory Spec2Isabelle
  imports Complex_Main
begin

chapter \<open>The model\<close>

section \<open>JavaScript values\<close>

text \<open>
  A JavaScript string is a sequence of UTF-16 code units, and \<open>length\<close> counts them; so a
  string is a list of natural numbers. \<open>ascii\<close> reads an ASCII literal.
\<close>

type_synonym js_string = "nat list"

definition ascii :: "string \<Rightarrow> js_string" where
  "ascii s = map of_char s"

fun startsWith :: "js_string \<Rightarrow> js_string \<Rightarrow> bool" where
  "startsWith s [] = True"
| "startsWith [] (c # cs) = False"
| "startsWith (x # xs) (c # cs) = (x = c \<and> startsWith xs cs)"

text \<open>\<open>String.prototype.includes\<close>.\<close>

fun js_includes :: "js_string \<Rightarrow> js_string \<Rightarrow> bool" where
  "js_includes [] needle = (needle = [])"
| "js_includes (x # xs) needle = (startsWith (x # xs) needle \<or> js_includes xs needle)"

text \<open>
  \<open>toLowerCase\<close>. It maps the letters A to Z to a to z, U+212A (KELVIN SIGN) to k, and
  U+0130 (capital I with a dot above) to the two code units i, U+0307. These are all the
  code units whose lower case has an ASCII code unit. Every other capital letter becomes
  a code unit beyond ASCII, one for one; the model leaves those as they are, which changes
  nothing for the code, which only searches the result for ASCII keywords.
\<close>

definition toLowerCase :: "js_string \<Rightarrow> js_string" where
  "toLowerCase s =
     concat (map (\<lambda>c. if 65 \<le> c \<and> c \<le> 90 then [c + 32]
                      else if c = 0x212A then [107]
                      else if c = 0x0130 then [105, 0x0307]
                      else [c]) s)"

text \<open>\<open>trim\<close> removes white space and line terminators at both ends.\<close>

definition isWhiteSpace :: "nat \<Rightarrow> bool" where
  "isWhiteSpace c =
     (c \<in> {9, 10, 11, 12, 13, 32, 160, 0x1680, 0x2028, 0x2029, 0x202F, 0x205F, 0x3000, 0xFEFF}
      \<or> (0x2000 \<le> c \<and> c \<le> 0x200A))"

definition trim :: "js_string \<Rightarrow> js_string" where
  "trim s = rev (dropWhile isWhiteSpace (rev (dropWhile isWhiteSpace s)))"

text \<open>A non-negative integer in a template literal: its decimal digits.\<close>

function decimal :: "nat \<Rightarrow> js_string" where
  "decimal n = (if n < 10 then [48 + n] else decimal (n div 10) @ [48 + n mod 10])"
  by pat_completeness auto
termination
  by (relation "measure (\<lambda>n. n)") auto

declare decimal.simps [simp del]

text \<open>
  The values \<open>JSON.parse\<close> returns. A number of a JSON text is finite, and the model
  carries its value, a rational; comparing two such values is exact. The arithmetic of
  the code on them (subtracting from 100, adding up) rounds, and is modelled in the
  section on numbers below. An object is the list of its properties.
\<close>

datatype json =
    JNull
  | JBool bool
  | JNum rat
  | JStr js_string
  | JArr "json list"
  | JObj "(js_string \<times> json) list"

text \<open>Truthiness of a value (\<open>!v\<close> is its negation).\<close>

fun truthy :: "json \<Rightarrow> bool" where
  "truthy JNull = False"
| "truthy (JBool b) = b"
| "truthy (JNum x) = (x \<noteq> 0)"
| "truthy (JStr s) = (s \<noteq> [])"
| "truthy (JArr xs) = True"
| "truthy (JObj kvs) = True"

text \<open>
  \<open>v.key\<close> for a value other than \<open>null\<close> and a key that is no built-in property:
  \<open>None\<close> is \<open>undefined\<close>.
\<close>

fun getProp :: "json \<Rightarrow> js_string \<Rightarrow> json option" where
  "getProp (JObj kvs) key = map_of kvs key"
| "getProp v key = None"

fun truthy_opt :: "json option \<Rightarrow> bool" where
  "truthy_opt None = False"
| "truthy_opt (Some v) = truthy v"

text \<open>\<open>Object.keys(v).length\<close>.\<close>

fun objectKeysCount :: "json \<Rightarrow> nat" where
  "objectKeysCount (JObj kvs) = length (remdups (map fst kvs))"
| "objectKeysCount (JArr xs) = length xs"
| "objectKeysCount (JStr s) = length s"
| "objectKeysCount v = 0"

text \<open>
  \<open>content.match(/\[[\s\S]*\]/)\<close>: the pattern is greedy, so the match runs from the
  first \<open>[\<close> (code unit 91) to the last \<open>]\<close> (code unit 93) of the text; there is no
  match when no \<open>]\<close> follows the first \<open>[\<close>.
\<close>

definition jsonMatch :: "js_string \<Rightarrow> js_string option" where
  "jsonMatch content =
     (let m = rev (dropWhile (\<lambda>c. c \<noteq> 93) (rev (dropWhile (\<lambda>c. c \<noteq> 91) content)))
      in if m = [] then None else Some m)"

text \<open>
  One call of the chat completion endpoint, as the caller sees it: \<open>fetch\<close> (or reading
  the body) throws an error with a message; the response is not \<open>ok\<close> and has a status
  and a body text; or the response is \<open>ok\<close> and \<open>data.choices[0]?.message?.content\<close> is a
  string (empty when it is missing).
\<close>

datatype llm_reply =
    Rejects js_string
  | Status nat js_string
  | Completion js_string

text \<open>
  \<open>isRetryableError\<close>, the same body in \<open>Scorer\<close> and in \<open>JustifierRunner\<close>, on the message
  of the error caught.
\<close>

definition isRetryableError :: "js_string \<Rightarrow> bool" where
  "isRetryableError message =
     (let errorMessage = toLowerCase message;
          isNetworkError = js_includes errorMessage (ascii ''network'') \<or>
                           js_includes errorMessage (ascii ''timeout'') \<or>
                           js_includes errorMessage (ascii ''fetch'');
          isRateLimited = js_includes errorMessage (ascii ''rate limit'') \<or>
                          js_includes errorMessage (ascii ''429'') \<or>
                          js_includes errorMessage (ascii ''too many requests'');
          isServerError = js_includes errorMessage (ascii ''500'') \<or>
                          js_includes errorMessage (ascii ''502'') \<or>
                          js_includes errorMessage (ascii ''503'') \<or>
                          js_includes errorMessage (ascii ''504'')
      in isNetworkError \<or> isRateLimited \<or> isServerError)"

section \<open>JavaScript numbers\<close>

text \<open>
  A JavaScript number is an IEEE 754 double: a finite value, an infinity or NaN. A
  finite double is carried by its value (so \<open>-0\<close> and \<open>0\<close> are one value: the functions
  modelled never divide by a score, a cost or a total, nor inspect a sign bit). The result of \<open>+\<close> and \<open>-\<close> on finite
  numbers is the exact result rounded to the nearest double, ties going to the double
  whose last mantissa bit is 0, and to an infinity from \<open>2^1024 - 2^970\<close> on.

  \<open>pow2 e\<close> is \<open>2^e\<close>. \<open>exponent x\<close> is the exponent of the binade of \<open>x\<close>: the \<open>e\<close> with
  \<open>2^e \<le> |x| < 2^(e+1)\<close>, kept between -1022 (subnormal numbers share the exponent of
  the smallest normal ones) and 1023. The doubles of that binade are the multiples of
  \<open>2^(e-52)\<close>, and \<open>roundToDouble\<close> rounds to the nearest of them.
\<close>

datatype number = Finite rat | PosInfinity | NegInfinity | NaN

definition pow2 :: "int \<Rightarrow> rat" where
  "pow2 e = (if 0 \<le> e then 2 ^ nat e else 1 / 2 ^ nat (- e))"

function exponentUp :: "int \<Rightarrow> rat \<Rightarrow> int" where
  "exponentUp e x = (if e < 1023 \<and> pow2 (e + 1) \<le> x then exponentUp (e + 1) x else e)"
  by pat_completeness auto
termination by (relation "measure (\<lambda>(e, x). nat (1023 - e))") auto

function exponentDown :: "int \<Rightarrow> rat \<Rightarrow> int" where
  "exponentDown e x = (if - 1022 < e \<and> x < pow2 e then exponentDown (e - 1) x else e)"
  by pat_completeness auto
termination by (relation "measure (\<lambda>(e, x). nat (e + 1022))") auto

declare exponentUp.simps [simp del] exponentDown.simps [simp del]

definition exponent :: "rat \<Rightarrow> int" where
  "exponent x = exponentDown (exponentUp 0 \<bar>x\<bar>) \<bar>x\<bar>"

definition roundHalfEven :: "rat \<Rightarrow> int" where
  "roundHalfEven m =
     (let f = \<lfloor>m\<rfloor>; d = m - of_int f
      in if d < 1 / 2 then f else if 1 / 2 < d then f + 1 else if even f then f else f + 1)"

definition roundToDouble :: "rat \<Rightarrow> number" where
  "roundToDouble x =
     (let ulp = pow2 (exponent x - 52);
          r = of_int (roundHalfEven (x / ulp)) * ulp
      in if pow2 1024 \<le> r then PosInfinity
         else if r \<le> - pow2 1024 then NegInfinity
         else Finite r)"

text \<open>The operators \<open>+\<close> and \<open>-\<close> on numbers.\<close>

fun js_plus :: "number \<Rightarrow> number \<Rightarrow> number" where
  "js_plus (Finite a) (Finite b) = roundToDouble (a + b)"
| "js_plus NaN y = NaN"
| "js_plus x NaN = NaN"
| "js_plus PosInfinity NegInfinity = NaN"
| "js_plus NegInfinity PosInfinity = NaN"
| "js_plus PosInfinity y = PosInfinity"
| "js_plus NegInfinity y = NegInfinity"
| "js_plus x PosInfinity = PosInfinity"
| "js_plus x NegInfinity = NegInfinity"

fun js_negate :: "number \<Rightarrow> number" where
  "js_negate (Finite a) = Finite (- a)"
| "js_negate PosInfinity = NegInfinity"
| "js_negate NegInfinity = PosInfinity"
| "js_negate NaN = NaN"

definition js_minus :: "number \<Rightarrow> number \<Rightarrow> number" where
  "js_minus x y = js_plus x (js_negate y)"

section \<open>Types (src/types/index.ts)\<close>

text \<open>
  The fields of \<open>Applicant\<close> and \<open>RoleDefinition\<close> that only feed the prompt text
  (occupation, skills, traits, description) are left out: the model does not build the
  prompt. An optional field is an \<open>option\<close>. The scores of a \<open>ScoreMatrix\<close> and of an
  \<open>Assignment\<close> are finite numbers, carried by their values: the Scorer takes them from a
  JSON text and checks their range, and the Assigner copies them. \<open>totalScore\<close> is the
  result of additions, a \<open>number\<close>.
\<close>

record Applicant =
  a_id :: js_string
  a_name :: js_string

record Team =
  t_id :: js_string
  applicants :: "Applicant list"
  isComplete :: bool
  maxMembers :: nat

record RoleDefinition =
  r_id :: js_string
  r_name :: js_string

record ScoreMatrix =
  sm_teamId :: js_string
  scores :: "rat list list"
  sm_generatedAt :: nat

record Assignment =
  applicantId :: js_string
  roleId :: js_string
  score :: rat
  justification :: "js_string option"

record TeamAssignment =
  ta_teamId :: js_string
  assignments :: "Assignment list"
  totalScore :: number
  ta_generatedAt :: nat
  justificationsGenerated :: bool

datatype session_status = Pending | Scoring | Assigning | Justifying | Complete

record AssignmentSession =
  s_id :: js_string
  s_teamId :: js_string
  s_roles :: "RoleDefinition list"
  s_scoreMatrix :: "ScoreMatrix option"
  s_assignment :: "TeamAssignment option"
  s_status :: session_status

text \<open>
  The calls a run makes to its collaborators, in order: the two writes of
  \<open>AssignmentSessionManager\<close> (neither throws: both catch every error and return a
  result the callers of \<open>updateSessionStatus\<close> ignore), the two pipeline stages, the
  background task and the queue.
\<close>

datatype call =
    UpdateSessionStatus js_string session_status
  | SaveAssignmentData js_string TeamAssignment "ScoreMatrix option"
  | GenerateScoreMatrix
  | AssignRoles
  | GenerateJustificationsBackground js_string
  | QueueAddTeam js_string

text \<open>
  The status a session holds after the calls, when it held \<open>st\<close> before and every
  status write reaches the store.
\<close>

fun statusAfter :: "js_string \<Rightarrow> call list \<Rightarrow> session_status \<Rightarrow> session_status" where
  "statusAfter sid [] st = st"
| "statusAfter sid (UpdateSessionStatus sid' st' # cs) st =
     statusAfter sid cs (if sid' = sid then st' else st)"
| "statusAfter sid (c # cs) st = statusAfter sid cs st"

section \<open>AssignmentQueue (src/lib/services/AssignmentQueue.ts)\<close>

text \<open>
  The queue is a singleton object mutated by callbacks that run on one JavaScript event
  loop. Each callback runs without interruption up to its first suspension point, so the
  model is a state record and one state transformer per uninterrupted block:

  \<^item> \<open>addTeam\<close>: the public call;
  \<^item> \<open>pipelineResolved\<close> / \<open>pipelineRejected\<close>: the \<open>.then\<close> / \<open>.catch\<close> callback that
    \<open>startProcessing\<close> attaches to \<open>AssignmentProcessor.triggerAutoAssignment(teamId)\<close>;
    both call \<open>onProcessingComplete\<close>;
  \<^item> \<open>resumeComplete\<close>: the rest of \<open>onProcessingComplete\<close> after its
    \<open>await this.retryTeam(...)\<close>;
  \<^item> \<open>retryTimerFired\<close>: the \<open>setTimeout\<close> callback of \<open>retryTeam\<close>;
  \<^item> \<open>forceRetryTeam\<close>, \<open>clearQueue\<close>: the admin calls.

  Besides the three fields of the class, the state holds what the event loop holds for
  the queue: the pipeline promises still pending (\<open>running\<close>, each with the queue item
  its callbacks captured), the retry timers not yet fired (\<open>timers\<close>) and the number of
  suspended \<open>onProcessingComplete\<close> calls (\<open>resumptions\<close>). Logging is not modelled.
  Dates are natural numbers (milliseconds).
\<close>

record QueueItem =
  teamId :: js_string
  completedAt :: nat
  retryCount :: nat
  addedToQueueAt :: nat

record QueueStats =
  processing :: nat
  waiting :: nat
  totalProcessed :: nat
  totalFailed :: nat

record AssignmentQueue =
  processingPool :: "js_string set"
  waitingQueue :: "QueueItem list"
  stats :: QueueStats
  running :: "QueueItem list"
  timers :: "QueueItem list"
  resumptions :: nat

definition MAX_CONCURRENT :: nat where
  "MAX_CONCURRENT = 3"

definition MAX_RETRIES :: nat where
  "MAX_RETRIES = 3"

definition RETRY_DELAY_BASE :: nat where
  "RETRY_DELAY_BASE = 5000"

definition RETRY_DELAY_MULTIPLIER :: nat where
  "RETRY_DELAY_MULTIPLIER = 2"

text \<open>The state of a freshly constructed queue.\<close>

definition newQueue :: AssignmentQueue where
  "newQueue =
     \<lparr>processingPool = {}, waitingQueue = [],
      stats = \<lparr>processing = 0, waiting = 0, totalProcessed = 0, totalFailed = 0\<rparr>,
      running = [], timers = [], resumptions = 0\<rparr>"

definition updateStats :: "AssignmentQueue \<Rightarrow> AssignmentQueue" where
  "updateStats q =
     q\<lparr>stats := (stats q)\<lparr>processing := card (processingPool q),
                            waiting := length (waitingQueue q)\<rparr>\<rparr>"

text \<open>
  \<open>startProcessing\<close> adds the team to the pool and starts the pipeline without awaiting
  it. Its \<open>catch\<close> block is unreachable: \<open>Set.add\<close> does not throw and an \<open>async\<close>
  function never throws synchronously.
\<close>

definition startProcessing :: "QueueItem \<Rightarrow> AssignmentQueue \<Rightarrow> AssignmentQueue" where
  "startProcessing queueItem q =
     updateStats (q\<lparr>processingPool := insert (teamId queueItem) (processingPool q),
                    running := running q @ [queueItem]\<rparr>)"

definition addTeam :: "nat \<Rightarrow> js_string \<Rightarrow> AssignmentQueue \<Rightarrow> AssignmentQueue" where
  "addTeam now tid q =
     (if tid \<in> processingPool q then q
      else if find (\<lambda>item. teamId item = tid) (waitingQueue q) \<noteq> None then q
      else
        let queueItem = \<lparr>teamId = tid, completedAt = now, retryCount = 0,
                         addedToQueueAt = now\<rparr>
        in updateStats
             (if card (processingPool q) < MAX_CONCURRENT
              then startProcessing queueItem q
              else q\<lparr>waitingQueue := waitingQueue q @ [queueItem]\<rparr>))"

definition processNext :: "AssignmentQueue \<Rightarrow> AssignmentQueue" where
  "processNext q =
     (if card (processingPool q) \<ge> MAX_CONCURRENT \<or> length (waitingQueue q) = 0 then q
      else case waitingQueue q of
             [] \<Rightarrow> q
           | nextItem # rest \<Rightarrow> startProcessing nextItem (q\<lparr>waitingQueue := rest\<rparr>))"

text \<open>\<open>retryTeam\<close>: the delay it computes, and its synchronous part.\<close>

definition retryDelay :: "QueueItem \<Rightarrow> nat" where
  "retryDelay queueItem = RETRY_DELAY_BASE * RETRY_DELAY_MULTIPLIER ^ retryCount queueItem"

definition retryTeam :: "QueueItem \<Rightarrow> AssignmentQueue \<Rightarrow> AssignmentQueue" where
  "retryTeam queueItem q =
     q\<lparr>timers := timers q @ [queueItem\<lparr>retryCount := retryCount queueItem + 1\<rparr>]\<rparr>"

text \<open>
  \<open>onProcessingComplete(teamId, true)\<close>, called when the pipeline promise of
  \<open>queueItem\<close> resolves.
\<close>

definition pipelineResolved :: "QueueItem \<Rightarrow> AssignmentQueue \<Rightarrow> AssignmentQueue" where
  "pipelineResolved queueItem q =
     (let q1 = q\<lparr>running := remove1 queueItem (running q),
                 processingPool := processingPool q - {teamId queueItem}\<rparr>;
          q2 = q1\<lparr>stats := (stats q1)\<lparr>totalProcessed := totalProcessed (stats q1) + 1\<rparr>\<rparr>
      in processNext (updateStats q2))"

text \<open>
  \<open>onProcessingComplete(teamId, false, queueItem)\<close>, called when the pipeline promise
  rejects. With retries left the call suspends at \<open>await this.retryTeam(...)\<close>, after
  \<open>retryTeam\<close> has set the timer; otherwise it runs on to \<open>processNext\<close>.
\<close>

definition pipelineRejected :: "QueueItem \<Rightarrow> AssignmentQueue \<Rightarrow> AssignmentQueue" where
  "pipelineRejected queueItem q =
     (let q1 = q\<lparr>running := remove1 queueItem (running q),
                 processingPool := processingPool q - {teamId queueItem}\<rparr>
      in if retryCount queueItem < MAX_RETRIES
         then (retryTeam queueItem q1)\<lparr>resumptions := resumptions q1 + 1\<rparr>
         else processNext
                (updateStats
                   (q1\<lparr>stats := (stats q1)\<lparr>totalFailed := totalFailed (stats q1) + 1\<rparr>\<rparr>)))"

definition resumeComplete :: "AssignmentQueue \<Rightarrow> AssignmentQueue" where
  "resumeComplete q = processNext (updateStats (q\<lparr>resumptions := resumptions q - 1\<rparr>))"

text \<open>The timer callback of \<open>retryTeam\<close>: \<open>unshift\<close>, then \<open>processNext\<close>.\<close>

definition retryTimerFired :: "QueueItem \<Rightarrow> AssignmentQueue \<Rightarrow> AssignmentQueue" where
  "retryTimerFired queueItem q =
     processNext (q\<lparr>timers := remove1 queueItem (timers q),
                    waitingQueue := queueItem # waitingQueue q\<rparr>)"

text \<open>
  \<open>forceRetryTeam\<close>: \<open>splice(queueIndex, 1)\<close> removes the first waiting item of the
  team.
\<close>

fun removeFirstOf :: "js_string \<Rightarrow> QueueItem list \<Rightarrow> QueueItem list" where
  "removeFirstOf tid [] = []"
| "removeFirstOf tid (item # rest) =
     (if teamId item = tid then rest else item # removeFirstOf tid rest)"

definition forceRetryTeam :: "nat \<Rightarrow> js_string \<Rightarrow> AssignmentQueue \<Rightarrow> AssignmentQueue" where
  "forceRetryTeam now tid q =
     addTeam now tid
       (q\<lparr>processingPool := processingPool q - {tid},
          waitingQueue := removeFirstOf tid (waitingQueue q)\<rparr>)"

definition clearQueue :: "AssignmentQueue \<Rightarrow> AssignmentQueue" where
  "clearQueue q =
     q\<lparr>waitingQueue := [], processingPool := {},
       stats := \<lparr>processing = 0, waiting = 0, totalProcessed = 0, totalFailed = 0\<rparr>\<rparr>"

text \<open>
  What can happen to the queue, and when: a pipeline can only settle while it is
  running, a timer can only fire while it is set, a suspended call can only resume while
  it is suspended. \<open>step\<close> is \<open>None\<close> for an event that cannot happen in the state.
\<close>

datatype QueueEvent =
    AddTeam nat js_string
  | Resolved QueueItem
  | Rejected QueueItem
  | Resume
  | TimerFired QueueItem
  | ForceRetry nat js_string
  | Clear

fun step :: "QueueEvent \<Rightarrow> AssignmentQueue \<Rightarrow> AssignmentQueue option" where
  "step (AddTeam now tid) q = Some (addTeam now tid q)"
| "step (Resolved item) q =
     (if item \<in> set (running q) then Some (pipelineResolved item q) else None)"
| "step (Rejected item) q =
     (if item \<in> set (running q) then Some (pipelineRejected item q) else None)"
| "step Resume q = (if resumptions q > 0 then Some (resumeComplete q) else None)"
| "step (TimerFired item) q =
     (if item \<in> set (timers q) then Some (retryTimerFired item q) else None)"
| "step (ForceRetry now tid) q = Some (forceRetryTeam now tid q)"
| "step Clear q = Some (clearQueue q)"

fun run :: "QueueEvent list \<Rightarrow> AssignmentQueue \<Rightarrow> AssignmentQueue option" where
  "run [] q = Some q"
| "run (e # es) q = (case step e q of None \<Rightarrow> None | Some q' \<Rightarrow> run es q')"

definition waitingTeams :: "AssignmentQueue \<Rightarrow> js_string list" where
  "waitingTeams q = map teamId (waitingQueue q)"

definition runningTeams :: "AssignmentQueue \<Rightarrow> js_string list" where
  "runningTeams q = map teamId (running q)"

text \<open>
  The bound on the pool as a predicate of the state, and the three views of a state the
  properties below speak about: the pool, the teams waiting and the teams whose pipeline
  is running.
\<close>

definition poolInv :: "AssignmentQueue \<Rightarrow> bool" where
  "poolInv q = (finite (processingPool q) \<and> card (processingPool q) \<le> MAX_CONCURRENT)"

definition queueView :: "AssignmentQueue \<Rightarrow> js_string set \<times> js_string list \<times> js_string list" where
  "queueView q = (processingPool q, waitingTeams q, runningTeams q)"

section \<open>Assigner (class \<open>Assigner\<close>, in src/lib/services/SystemInitializer.ts)\<close>

text \<open>
  \<open>munkres\<close> is the function of the package munkres-js; its code is not part of the
  repository, so \<open>assignRoles\<close> takes it as a parameter. It returns a list of
  [row, column] pairs; the model also covers a value that is not a list (\<open>NoResult\<close>,
  caught by \<open>!hungarianResult\<close>) and a call that throws.
\<close>

datatype munkres_result =
    Pairs "(int \<times> int) list"
  | NoResult
  | Throws js_string

datatype assign_error =
    TeamIncomplete nat nat
  | TooFewRoles nat nat
  | BadMatrixShape nat nat
  | NoValidAssignment
  | InvalidIndices int int
  | ApplicantsNotUnique nat
  | RolesNotUnique nat
  | AssignerCaught js_string

text \<open>
  \<open>scoreMatrix.scores.map(row => row.map(score => 100 - score))\<close>: each cost is the
  double nearest to \<open>100 - score\<close>.
\<close>

definition costMatrix :: "rat list list \<Rightarrow> number list list" where
  "costMatrix m = map (\<lambda>row. map (\<lambda>s. js_minus (Finite 100) (Finite s)) row) m"

text \<open>
  The loop over the pairs of \<open>hungarianResult\<close>: it returns at the first pair out of
  bounds, and otherwise pushes one assignment per pair and adds its score to the total
  (\<open>totalScore += score\<close>, a rounded addition).
  The indices it reads are in bounds (the matrix has been checked to be
  teamSize x rolesCount), so \<open>!applicant\<close> and \<open>!role\<close> never hold.
\<close>

fun buildAssignments ::
  "Team \<Rightarrow> RoleDefinition list \<Rightarrow> rat list list \<Rightarrow> (int \<times> int) list \<Rightarrow>
   Assignment list \<Rightarrow> number \<Rightarrow> assign_error + (Assignment list \<times> number)" where
  "buildAssignments team rs m [] acc sumSoFar = Inr (acc, sumSoFar)"
| "buildAssignments team rs m ((applicantIndex, roleIndex) # rest) acc sumSoFar =
     (if applicantIndex < 0 \<or> applicantIndex \<ge> int (length (applicants team)) \<or>
         roleIndex < 0 \<or> roleIndex \<ge> int (length rs)
      then Inl (InvalidIndices applicantIndex roleIndex)
      else
        let applicant = applicants team ! nat applicantIndex;
            role = rs ! nat roleIndex;
            sc = m ! nat applicantIndex ! nat roleIndex
        in buildAssignments team rs m rest
             (acc @ [\<lparr>applicantId = a_id applicant, roleId = r_id role, score = sc,
                       justification = None\<rparr>])
             (js_plus sumSoFar (Finite sc)))"

definition assignRoles ::
  "(number list list \<Rightarrow> munkres_result) \<Rightarrow> nat \<Rightarrow> Team \<Rightarrow> RoleDefinition list \<Rightarrow>
   ScoreMatrix \<Rightarrow> assign_error + TeamAssignment" where
  "assignRoles munkres now team rs scoreMatrix =
     (if \<not> isComplete team
      then Inl (TeamIncomplete (length (applicants team)) (maxMembers team))
      else
        let teamSize = length (applicants team);
            rolesCount = length rs
        in if rolesCount < teamSize then Inl (TooFewRoles teamSize rolesCount)
           else if length (scores scoreMatrix) \<noteq> teamSize \<or>
                   \<not> list_all (\<lambda>row. length row = rolesCount) (scores scoreMatrix)
           then Inl (BadMatrixShape teamSize rolesCount)
           else
             case munkres (costMatrix (scores scoreMatrix)) of
               Throws msg \<Rightarrow> Inl (AssignerCaught msg)
             | NoResult \<Rightarrow> Inl NoValidAssignment
             | Pairs hungarianResult \<Rightarrow>
                 if length hungarianResult \<noteq> teamSize then Inl NoValidAssignment
                 else
                   case buildAssignments team rs (scores scoreMatrix) hungarianResult []
                          (Finite 0) of
                     Inl e \<Rightarrow> Inl e
                   | Inr (asgs, sumSoFar) \<Rightarrow>
                       if card (set (map applicantId asgs)) \<noteq> teamSize
                       then Inl (ApplicantsNotUnique teamSize)
                       else if card (set (map roleId asgs)) \<noteq> teamSize
                       then Inl (RolesNotUnique teamSize)
                       else Inr \<lparr>ta_teamId = t_id team, assignments = asgs,
                                  totalScore = sumSoFar, ta_generatedAt = now,
                                  justificationsGenerated = False\<rparr>)"

text \<open>
  For the properties of \<open>assignRoles\<close>: the pairs that are in bounds; the assignments
  the loop builds from a list of pairs; the total the loop reaches by adding a list of
  scores to a number, one rounded addition after the other; the exact sum of the matrix
  entries a list of pairs selects; a one-to-one assignment of the applicants
  \<open>0, ..., teamSize - 1\<close> to distinct roles, as the list of the role index of each
  applicant, and the exact sum of the entries it selects; and the contract of munkres-js
  on the cost matrix it is given: the costs being finite numbers, the pairs it returns
  select a sum that no one-to-one assignment undercuts. \<open>exactCosts\<close> is the matrix of
  the differences \<open>100 - score\<close> before rounding, and \<open>dyadicScores k\<close> says that every
  score is a multiple of \<open>2^-k\<close> between 0 and 100 (an integer score, for \<open>k = 0\<close>).
\<close>

definition inBounds :: "nat \<Rightarrow> nat \<Rightarrow> (int \<times> int) list \<Rightarrow> bool" where
  "inBounds teamSize rolesCount pairs =
     list_all (\<lambda>(applicantIndex, roleIndex).
        0 \<le> applicantIndex \<and> applicantIndex < int teamSize \<and>
        0 \<le> roleIndex \<and> roleIndex < int rolesCount) pairs"

definition assignmentsOf ::
  "Team \<Rightarrow> RoleDefinition list \<Rightarrow> rat list list \<Rightarrow> (int \<times> int) list \<Rightarrow> Assignment list" where
  "assignmentsOf team rs m pairs =
     map (\<lambda>(applicantIndex, roleIndex).
        \<lparr>applicantId = a_id (applicants team ! nat applicantIndex),
         roleId = r_id (rs ! nat roleIndex),
         score = m ! nat applicantIndex ! nat roleIndex,
         justification = None\<rparr>) pairs"

definition addScores :: "number \<Rightarrow> rat list \<Rightarrow> number" where
  "addScores sumSoFar xs = foldl (\<lambda>t sc. js_plus t (Finite sc)) sumSoFar xs"

definition exactCosts :: "rat list list \<Rightarrow> rat list list" where
  "exactCosts m = map (\<lambda>row. map (\<lambda>s. 100 - s) row) m"

definition dyadicScores :: "nat \<Rightarrow> rat list list \<Rightarrow> bool" where
  "dyadicScores k m =
     list_all (list_all (\<lambda>s. 0 \<le> s \<and> s \<le> 100 \<and> of_int \<lfloor>s * 2 ^ k\<rfloor> = s * 2 ^ k)) m"

definition pairsSum :: "rat list list \<Rightarrow> (int \<times> int) list \<Rightarrow> rat" where
  "pairsSum m pairs = sum_list (map (\<lambda>(i, j). m ! nat i ! nat j) pairs)"

definition one_to_one :: "nat \<Rightarrow> nat \<Rightarrow> nat list \<Rightarrow> bool" where
  "one_to_one teamSize rolesCount cs =
     (length cs = teamSize \<and> distinct cs \<and> (\<forall>c \<in> set cs. c < rolesCount))"

definition chosenSum :: "rat list list \<Rightarrow> nat list \<Rightarrow> rat" where
  "chosenSum m cs = (\<Sum>i < length cs. m ! i ! (cs ! i))"

definition munkresMinimizes ::
  "(number list list \<Rightarrow> munkres_result) \<Rightarrow> number list list \<Rightarrow> nat \<Rightarrow> nat \<Rightarrow> bool" where
  "munkresMinimizes munkres cost teamSize rolesCount =
     (\<exists>c. cost = map (map Finite) c \<and>
        (\<forall>pairs cs. munkres cost = Pairs pairs \<longrightarrow> one_to_one teamSize rolesCount cs \<longrightarrow>
           pairsSum c pairs \<le> chosenSum c cs))"


text \<open>
  Concrete scenario 1 of the specification: two members, ten roles, member 0 scores 90
  for role 0 and member 1 scores 90 for role 1 (every other score is 10); munkres-js
  answers [[0, 0], [1, 1]].
\<close>

definition scenario1_team :: Team where
  "scenario1_team =
     \<lparr>t_id = ascii ''team-1'',
      applicants = [\<lparr>a_id = ascii ''member0'', a_name = ascii ''Ann''\<rparr>,
                    \<lparr>a_id = ascii ''member1'', a_name = ascii ''Bob''\<rparr>],
      isComplete = True, maxMembers = 2\<rparr>"

definition scenario1_roles :: "RoleDefinition list" where
  "scenario1_roles =
     map (\<lambda>n. \<lparr>r_id = ascii ''role'' @ decimal n, r_name = ascii ''Role #'' @ decimal n\<rparr>)
       [0 ..< 10]"

definition scenario1_scores :: ScoreMatrix where
  "scenario1_scores =
     \<lparr>sm_teamId = ascii ''team-1'',
      scores = [[90, 10, 10, 10, 10, 10, 10, 10, 10, 10],
                [10, 90, 10, 10, 10, 10, 10, 10, 10, 10]],
      sm_generatedAt = 0\<rparr>"

definition scenario1_munkres :: "number list list \<Rightarrow> munkres_result" where
  "scenario1_munkres cost = Pairs [(0, 0), (1, 1)]"

definition scenario1_assignment :: TeamAssignment where
  "scenario1_assignment =
     \<lparr>ta_teamId = ascii ''team-1'',
      assignments =
        [\<lparr>applicantId = ascii ''member0'', roleId = ascii ''role0'', score = 90,
          justification = None\<rparr>,
         \<lparr>applicantId = ascii ''member1'', roleId = ascii ''role1'', score = 90,
          justification = None\<rparr>],
      totalScore = Finite 180, ta_generatedAt = 7, justificationsGenerated = False\<rparr>"

text \<open>
  Scores that differ by less than the rounding of \<open>100 - score\<close>: a team of two, two
  roles, and the two matrices [[0, t], [0, 0]] and [[t, 0], [0, 0]], where \<open>t = 2^-60\<close>, a
  double (the number 8.673617379884035e-19 of a JSON text). On either,
  munkres-js is given the cost matrix [[100, 100], [100, 100]], every matching of which
  has the minimum cost; it answers [[0, 0], [1, 1]] (\<open>diagonal_munkres\<close>), or else
  [[0, 1], [1, 0]] (\<open>antidiagonal_munkres\<close>).
\<close>

definition tiny_roles :: "RoleDefinition list" where
  "tiny_roles = [\<lparr>r_id = ascii ''role0'', r_name = ascii ''Role #0''\<rparr>,
                 \<lparr>r_id = ascii ''role1'', r_name = ascii ''Role #1''\<rparr>]"

definition tiny_scores_right :: ScoreMatrix where
  "tiny_scores_right =
     \<lparr>sm_teamId = ascii ''team-1'', scores = [[0, 1 / 2 ^ 60], [0, 0]], sm_generatedAt = 0\<rparr>"

definition tiny_scores_left :: ScoreMatrix where
  "tiny_scores_left =
     \<lparr>sm_teamId = ascii ''team-1'', scores = [[1 / 2 ^ 60, 0], [0, 0]], sm_generatedAt = 0\<rparr>"

definition diagonal_munkres :: "number list list \<Rightarrow> munkres_result" where
  "diagonal_munkres cost = Pairs [(0, 0), (1, 1)]"

definition antidiagonal_munkres :: "number list list \<Rightarrow> munkres_result" where
  "antidiagonal_munkres cost = Pairs [(0, 1), (1, 0)]"

section \<open>Scorer (src/lib/services/scorer.ts)\<close>

definition Scorer_MAX_RETRIES :: nat where
  "Scorer_MAX_RETRIES = 3"

definition Scorer_RETRY_DELAY :: nat where
  "Scorer_RETRY_DELAY = 1000"

text \<open>
  The errors one attempt throws inside the \<open>try\<close> of \<open>generateScoreMatrixWithRetry\<close>,
  and the message of each, which \<open>isRetryableError\<close> reads.
\<close>

datatype scorer_error =
    ApiError nat js_string
  | FetchError js_string
  | NoContent
  | ParseFailed js_string
  | WrongRowCount nat nat
  | WrongRowLength nat nat
  | InvalidScore nat nat

definition msg_no_content :: js_string where
  "msg_no_content = [76, 76, 77, 0x7121, 0x56DE, 0x61C9, 0x5167, 0x5BB9]"

definition msg_parse_failed :: js_string where
  "msg_parse_failed = [0x89E3, 0x6790, 76, 76, 77, 0x56DE, 0x61C9, 0x5931, 0x6557, 0xFF1A]"

definition msg_no_json_array :: js_string where
  "msg_no_json_array =
     [0x56DE, 0x61C9, 0x4E2D, 0x627E, 0x4E0D, 0x5230, 74, 83, 79, 78, 0x9663, 0x5217]"

fun message :: "scorer_error \<Rightarrow> js_string" where
  "message (ApiError status errorText) =
     ascii ''OpenAI API error: '' @ decimal status @ ascii '' - '' @ errorText"
| "message (FetchError msg) = msg"
| "message NoContent = msg_no_content"
| "message (ParseFailed parseError) = msg_parse_failed @ parseError"
| "message (WrongRowCount teamSize rolesCount) =
     ascii ''Score matrix must be '' @ decimal teamSize @ ascii ''x'' @ decimal rolesCount @
     ascii '' ('' @ decimal teamSize @ ascii '' applicants x '' @ decimal rolesCount @
     ascii '' roles)''"
| "message (WrongRowLength i rolesCount) =
     ascii ''Row '' @ decimal i @ ascii '' must have exactly '' @ decimal rolesCount @
     ascii '' scores (one for each role)''"
| "message (InvalidScore i j) =
     ascii ''Invalid score at ['' @ decimal i @ ascii ''][''  @ decimal j @
     ascii '']: must be number between 0-100''"

text \<open>
  The validation loops. Row \<open>i\<close> is checked, then its cells from left to right, then
  row \<open>i + 1\<close>; the first violation throws. A cell passes when it is a number \<open>x\<close> with
  neither \<open>x < 0\<close> nor \<open>x > 100\<close>, and is kept as it is.
\<close>

fun validateCells :: "nat \<Rightarrow> nat \<Rightarrow> json list \<Rightarrow> scorer_error + rat list" where
  "validateCells i j [] = Inr []"
| "validateCells i j (JNum x # cells) =
     (if x < 0 \<or> x > 100 then Inl (InvalidScore i j)
      else case validateCells i (j + 1) cells of
             Inl e \<Rightarrow> Inl e
           | Inr row \<Rightarrow> Inr (x # row))"
| "validateCells i j (v # cells) = Inl (InvalidScore i j)"

fun validateRows :: "nat \<Rightarrow> nat \<Rightarrow> json list \<Rightarrow> scorer_error + rat list list" where
  "validateRows rolesCount i [] = Inr []"
| "validateRows rolesCount i (JArr cells # rows) =
     (if length cells \<noteq> rolesCount then Inl (WrongRowLength i rolesCount)
      else case validateCells i 0 cells of
             Inl e \<Rightarrow> Inl e
           | Inr row \<Rightarrow>
               (case validateRows rolesCount (i + 1) rows of
                  Inl e \<Rightarrow> Inl e
                | Inr m \<Rightarrow> Inr (row # m)))"
| "validateRows rolesCount i (v # rows) = Inl (WrongRowLength i rolesCount)"

fun validateParsedScores :: "nat \<Rightarrow> nat \<Rightarrow> json \<Rightarrow> scorer_error + rat list list" where
  "validateParsedScores teamSize rolesCount (JArr rows) =
     (if length rows \<noteq> teamSize then Inl (WrongRowCount teamSize rolesCount)
      else validateRows rolesCount 0 rows)"
| "validateParsedScores teamSize rolesCount v = Inl (WrongRowCount teamSize rolesCount)"

text \<open>
  One pass through the \<open>try\<close> block after the two early returns, given the reply of the
  endpoint. \<open>JSON_parse\<close> is \<open>JSON.parse\<close>: it returns the value, or throws an error
  whose text (as \<open>`${parseError}`\<close> prints it) is the \<open>Inl\<close>.
\<close>

definition scoreAttempt ::
  "(js_string \<Rightarrow> js_string + json) \<Rightarrow> nat \<Rightarrow> Team \<Rightarrow> RoleDefinition list \<Rightarrow> llm_reply \<Rightarrow>
   scorer_error + ScoreMatrix" where
  "scoreAttempt JSON_parse now team rs reply =
     (case reply of
        Rejects msg \<Rightarrow> Inl (FetchError msg)
      | Status status errorText \<Rightarrow> Inl (ApiError status errorText)
      | Completion content \<Rightarrow>
          if content = [] then Inl NoContent
          else
            case jsonMatch content of
              None \<Rightarrow> Inl (ParseFailed (ascii ''Error: '' @ msg_no_json_array))
            | Some jsonText \<Rightarrow>
                (case JSON_parse jsonText of
                   Inl parseError \<Rightarrow> Inl (ParseFailed parseError)
                 | Inr parsedScores \<Rightarrow>
                     (case validateParsedScores (length (applicants team)) (length rs)
                             parsedScores of
                        Inl e \<Rightarrow> Inl e
                      | Inr m \<Rightarrow>
                          Inr \<lparr>sm_teamId = t_id team, scores = m, sm_generatedAt = now\<rparr>)))"

datatype scoring_failure =
    ScoringTeamIncomplete nat nat
  | ScoringTooFewRoles nat nat
  | AfterRetries nat scorer_error

datatype scoring_result =
    ScoringFailed scoring_failure
  | Scored ScoreMatrix

text \<open>
  \<open>generateScoreMatrixWithRetry\<close>. \<open>llm k\<close> is the reply to the \<open>k\<close>-th call of the
  endpoint; the function returns its result and the number of the next call. The delay
  before a retry is \<open>Scorer_RETRY_DELAY * 2 ^ retryNo\<close> (\<open>retryNo\<close> is the parameter \<open>retryCount\<close>); time is not modelled.
\<close>

function generateScoreMatrixWithRetry ::
  "(js_string \<Rightarrow> js_string + json) \<Rightarrow> nat \<Rightarrow> Team \<Rightarrow> RoleDefinition list \<Rightarrow>
   (nat \<Rightarrow> llm_reply) \<Rightarrow> nat \<Rightarrow> nat \<Rightarrow> scoring_result \<times> nat" where
  "generateScoreMatrixWithRetry JSON_parse now team rs llm k retryNo =
     (if \<not> isComplete team
      then (ScoringFailed (ScoringTeamIncomplete (length (applicants team)) (maxMembers team)), k)
      else if length rs < length (applicants team)
      then (ScoringFailed (ScoringTooFewRoles (length (applicants team)) (length rs)), k)
      else
        case scoreAttempt JSON_parse now team rs (llm k) of
          Inr scoreMatrix \<Rightarrow> (Scored scoreMatrix, k + 1)
        | Inl error \<Rightarrow>
            if isRetryableError (message error) \<and> retryNo < Scorer_MAX_RETRIES
            then generateScoreMatrixWithRetry JSON_parse now team rs llm (k + 1) (retryNo + 1)
            else (ScoringFailed (AfterRetries retryNo error), k + 1))"
  by pat_completeness auto
termination
  by (relation "measure (\<lambda>(JSON_parse, now, team, rs, llm, k, retryNo).
                  Scorer_MAX_RETRIES - retryNo)") auto

declare generateScoreMatrixWithRetry.simps [simp del]

definition generateScoreMatrix ::
  "(js_string \<Rightarrow> js_string + json) \<Rightarrow> nat \<Rightarrow> Team \<Rightarrow> RoleDefinition list \<Rightarrow>
   (nat \<Rightarrow> llm_reply) \<Rightarrow> nat \<Rightarrow> scoring_result \<times> nat" where
  "generateScoreMatrix JSON_parse now team rs llm k =
     generateScoreMatrixWithRetry JSON_parse now team rs llm k 0"

text \<open>\<open>Scorer.validateScoreMatrix\<close>, the type guard.\<close>

fun validateScoreMatrix :: "json \<Rightarrow> nat \<Rightarrow> nat \<Rightarrow> bool" where
  "validateScoreMatrix (JArr rows) expectedRows expectedCols =
     (length rows = expectedRows \<and>
      list_all (\<lambda>row. case row of
                  JArr cells \<Rightarrow> length cells = expectedCols \<and>
                    list_all (\<lambda>c. case c of JNum x \<Rightarrow> x \<ge> 0 \<and> x \<le> 100 | _ \<Rightarrow> False) cells
                | _ \<Rightarrow> False) rows)"
| "validateScoreMatrix v expectedRows expectedCols = False"








section \<open>JustifierService (src/lib/services/JustifierService.ts)\<close>

text \<open>The errors thrown inside the \<open>try\<close> of \<open>generateJustifications\<close>.\<close>

datatype justify_error =
    WrongAssignmentCount nat nat
  | InvalidAssignment
  | JustifyApiError nat js_string
  | JustifyFetchError js_string
  | JustifyNoContent
  | JustifyParseFailed js_string
  | WrongJustificationCount nat nat
  | NullEntry
  | MissingIdOrJustification
  | NotAStringOrTooLong
  | NoJustificationFound js_string
  | RetriesExhausted nat js_string

datatype justify_result =
    JustifyFailed justify_error
  | Justified TeamAssignment

text \<open>
  \<open>buildJustificationPrompt\<close> throws when an assignment names an applicant that is not
  in the team or a role that is not in the list; the prompt text itself is not modelled.
\<close>

definition promptBuilds :: "Team \<Rightarrow> RoleDefinition list \<Rightarrow> TeamAssignment \<Rightarrow> bool" where
  "promptBuilds team rs asg =
     list_all (\<lambda>assign.
        find (\<lambda>a. a_id a = applicantId assign) (applicants team) \<noteq> None \<and>
        find (\<lambda>r. r_id r = roleId assign) rs \<noteq> None) (assignments asg)"

text \<open>The loop that fills \<open>nameToIdMap\<close>; a later \<open>set\<close> of a name replaces an earlier one.\<close>

fun buildNameToIdMap ::
  "Team \<Rightarrow> Assignment list \<Rightarrow> (js_string \<rightharpoonup> js_string) \<Rightarrow> (js_string \<rightharpoonup> js_string)" where
  "buildNameToIdMap team [] nameToIdMap = nameToIdMap"
| "buildNameToIdMap team (assign # rest) nameToIdMap =
     buildNameToIdMap team rest
       (case find (\<lambda>a. a_id a = applicantId assign) (applicants team) of
          None \<Rightarrow> nameToIdMap
        | Some applicant \<Rightarrow> nameToIdMap(a_name applicant \<mapsto> applicantId assign))"

text \<open>
  The loop over \<open>parsedJustifications\<close>. An entry that is \<open>null\<close> makes the property
  access throw a TypeError. The keys of \<open>justificationMap\<close> are the values found in
  \<open>applicantId\<close> (any truthy value) or the ids found through \<open>nameToIdMap\<close>.
\<close>

fun collectJustifications ::
  "Assignment list \<Rightarrow> (js_string \<rightharpoonup> js_string) \<Rightarrow> json list \<Rightarrow> (json \<rightharpoonup> js_string) \<Rightarrow>
   justify_error + (json \<rightharpoonup> js_string)" where
  "collectJustifications asgs nameToIdMap [] justificationMap = Inr justificationMap"
| "collectJustifications asgs nameToIdMap (entry # rest) justificationMap =
     (if entry = JNull then Inl NullEntry
      else if \<not> truthy_opt (getProp entry (ascii ''applicantId'')) \<or>
              \<not> truthy_opt (getProp entry (ascii ''justification''))
      then Inl MissingIdOrJustification
      else
        case getProp entry (ascii ''justification'') of
          Some (JStr text) \<Rightarrow>
            if length text > 500 then Inl NotAStringOrTooLong
            else
              let given = the (getProp entry (ascii ''applicantId''));
                  actualApplicantId =
                    (if find (\<lambda>a. JStr (applicantId a) = given) asgs \<noteq> None then given
                     else case given of
                            JStr nm \<Rightarrow>
                              (case nameToIdMap nm of
                                 Some idFromName \<Rightarrow>
                                   if idFromName \<noteq> [] then JStr idFromName else given
                               | None \<Rightarrow> given)
                          | _ \<Rightarrow> given)
              in collectJustifications asgs nameToIdMap rest
                   (justificationMap(actualApplicantId \<mapsto> trim text))
        | _ \<Rightarrow> Inl NotAStringOrTooLong)"

text \<open>
  \<open>assignment.assignments.map(...)\<close>: it throws at the first entry whose justification
  is missing from the map or empty.
\<close>

fun applyJustifications ::
  "(json \<rightharpoonup> js_string) \<Rightarrow> Assignment list \<Rightarrow> justify_error + Assignment list" where
  "applyJustifications justificationMap [] = Inr []"
| "applyJustifications justificationMap (assign # rest) =
     (case justificationMap (JStr (applicantId assign)) of
        None \<Rightarrow> Inl (NoJustificationFound (applicantId assign))
      | Some text \<Rightarrow>
          if text = [] then Inl (NoJustificationFound (applicantId assign))
          else case applyJustifications justificationMap rest of
                 Inl e \<Rightarrow> Inl e
               | Inr updated \<Rightarrow> Inr (assign\<lparr>justification := Some text\<rparr> # updated))"

text \<open>What the \<open>try\<close> block does with the parsed array.\<close>

definition matchJustifications ::
  "Team \<Rightarrow> TeamAssignment \<Rightarrow> json \<Rightarrow> justify_error + TeamAssignment" where
  "matchJustifications team asg parsedJustifications =
     (let expectedCount = length (assignments asg)
      in case parsedJustifications of
           JArr entries \<Rightarrow>
             if length entries \<noteq> expectedCount
             then Inl (WrongJustificationCount expectedCount (length entries))
             else
               (case collectJustifications (assignments asg)
                       (buildNameToIdMap team (assignments asg) Map.empty) entries Map.empty of
                  Inl e \<Rightarrow> Inl e
                | Inr justificationMap \<Rightarrow>
                    (case applyJustifications justificationMap (assignments asg) of
                       Inl e \<Rightarrow> Inl e
                     | Inr updatedAssignments \<Rightarrow>
                         Inr (asg\<lparr>assignments := updatedAssignments,
                                   justificationsGenerated := True\<rparr>)))
         | _ \<Rightarrow> Inl (WrongJustificationCount expectedCount 0))"

text \<open>
  The \<open>try\<close> block of \<open>generateJustifications\<close>: the error thrown, or the updated
  assignment; with it, the number of calls of the endpoint it made (none when it throws
  before \<open>fetch\<close>).
\<close>

definition justifyAttempt ::
  "(js_string \<Rightarrow> js_string + json) \<Rightarrow> Team \<Rightarrow> RoleDefinition list \<Rightarrow> TeamAssignment \<Rightarrow>
   llm_reply \<Rightarrow> (justify_error + TeamAssignment) \<times> nat" where
  "justifyAttempt JSON_parse team rs asg reply =
     (if length (assignments asg) \<noteq> length (applicants team)
      then (Inl (WrongAssignmentCount (length (applicants team)) (length (assignments asg))), 0)
      else if \<not> promptBuilds team rs asg then (Inl InvalidAssignment, 0)
      else
        (case reply of
           Rejects msg \<Rightarrow> Inl (JustifyFetchError msg)
         | Status status errorText \<Rightarrow> Inl (JustifyApiError status errorText)
         | Completion content \<Rightarrow>
             if content = [] then Inl JustifyNoContent
             else
               case jsonMatch content of
                 None \<Rightarrow> Inl (JustifyParseFailed (ascii ''Error: '' @ msg_no_json_array))
               | Some jsonText \<Rightarrow>
                   (case JSON_parse jsonText of
                      Inl parseError \<Rightarrow> Inl (JustifyParseFailed parseError)
                    | Inr parsedJustifications \<Rightarrow>
                        matchJustifications team asg parsedJustifications),
         1))"

text \<open>
  \<open>generateJustifications\<close>: its \<open>catch\<close> turns every error of the \<open>try\<close> block into a
  returned \<open>{success: false, ...}\<close>. The result type keeps the exceptional outcome of a
  JavaScript call (\<open>Inl\<close>, with the message of the error) although this function never
  produces it, because the caller below has a handler for it.
\<close>

definition generateJustifications ::
  "(js_string \<Rightarrow> js_string + json) \<Rightarrow> Team \<Rightarrow> RoleDefinition list \<Rightarrow> TeamAssignment \<Rightarrow>
   llm_reply \<Rightarrow> (js_string + justify_result) \<times> nat" where
  "generateJustifications JSON_parse team rs asg reply =
     (case justifyAttempt JSON_parse team rs asg reply of
        (Inl error, calls) \<Rightarrow> (Inr (JustifyFailed error), calls)
      | (Inr updatedAssignment, calls) \<Rightarrow> (Inr (Justified updatedAssignment), calls))"

text \<open>
  For the properties of \<open>generateJustifications\<close>: an entry of the parsed array whose
  justification is a string longer than 500, and an assignment entry that carries a
  justification, not empty and at most 500 long.
\<close>

definition tooLong :: "json \<Rightarrow> bool" where
  "tooLong entry =
     (case getProp entry (ascii ''justification'') of
        Some (JStr text) \<Rightarrow> length text > 500
      | _ \<Rightarrow> False)"

definition justified :: "Assignment \<Rightarrow> bool" where
  "justified assign =
     (case justification assign of
        Some text \<Rightarrow> text \<noteq> [] \<and> length text \<le> 500
      | None \<Rightarrow> False)"

section \<open>JustifierRunner (src/lib/services/JustifierRunner.ts)\<close>

definition Runner_MAX_RETRIES :: nat where
  "Runner_MAX_RETRIES = 3"

definition Runner_RETRY_DELAY :: nat where
  "Runner_RETRY_DELAY = 1000"

text \<open>
  \<open>generateJustificationsWithRetry\<close>: \<open>try { return await generateJustifications(...) }\<close>,
  and in the \<open>catch\<close> a retry after \<open>Runner_RETRY_DELAY * 2 ^ retryNo\<close> milliseconds when
  the error is retryable and \<open>retryNo < Runner_MAX_RETRIES\<close> (\<open>retryNo\<close> is the parameter
  \<open>retryCount\<close>). It returns its result and the number of the next call of the endpoint.
\<close>

function generateJustificationsWithRetry ::
  "(js_string \<Rightarrow> js_string + json) \<Rightarrow> Team \<Rightarrow> RoleDefinition list \<Rightarrow> TeamAssignment \<Rightarrow>
   (nat \<Rightarrow> llm_reply) \<Rightarrow> nat \<Rightarrow> nat \<Rightarrow> justify_result \<times> nat" where
  "generateJustificationsWithRetry JSON_parse team rs asg llm k retryNo =
     (case generateJustifications JSON_parse team rs asg (llm k) of
        (Inr result, calls) \<Rightarrow> (result, k + calls)
      | (Inl error, calls) \<Rightarrow>
          if isRetryableError error \<and> retryNo < Runner_MAX_RETRIES
          then generateJustificationsWithRetry JSON_parse team rs asg llm (k + calls) (retryNo + 1)
          else (JustifyFailed (RetriesExhausted retryNo error), k + calls))"
  by pat_completeness auto
termination
  by (relation "measure (\<lambda>(JSON_parse, team, rs, asg, llm, k, retryNo).
                  Runner_MAX_RETRIES - retryNo)") auto

declare generateJustificationsWithRetry.simps [simp del]

section \<open>AssignmentProcessor (src/lib/services/AssignmentProcessor.ts)\<close>

text \<open>
  What the surroundings answer during one run of \<open>processTeamAssignment(teamId)\<close>: the
  environment variable, \<open>TeamManager.getTeam\<close>, the two session lookups of
  \<open>AssignmentSessionManager\<close> (none of them throws), the endpoint, \<open>JSON.parse\<close>,
  munkres-js, the result of \<open>saveAssignmentData\<close> (\<open>None\<close> is success) and the clock.
\<close>

record World =
  OPENAI_API_KEY :: "js_string option"
  getTeam :: "Team option"
  getAssignmentForTeam :: "AssignmentSession option"
  createAssignmentSession :: "js_string + AssignmentSession"
  w_parse :: "js_string \<Rightarrow> js_string + json"
  w_llm :: "nat \<Rightarrow> llm_reply"
  w_munkres :: "number list list \<Rightarrow> munkres_result"
  saveAssignmentData :: "js_string option"
  clock :: nat

datatype processing_error =
    NoApiKey
  | TeamNotFound
  | TeamNotComplete
  | SessionNotCreated js_string
  | ScoringError scoring_failure
  | AssignmentError assign_error
  | SaveError js_string

record ProcessingData =
  pd_sessionId :: js_string
  pd_assignment :: TeamAssignment
  justificationsPending :: bool

datatype processing_result =
    ProcessingFailed processing_error
  | ProcessingSucceeded ProcessingData

text \<open>
  "Get or create assignment session": the session found for the team, else the result
  of creating one.
\<close>

definition getOrCreateSession :: "World \<Rightarrow> js_string + AssignmentSession" where
  "getOrCreateSession w =
     (case getAssignmentForTeam w of
        Some existing \<Rightarrow> Inr existing
      | None \<Rightarrow> createAssignmentSession w)"

text \<open>
  \<open>processTeamAssignment\<close>: its result and the calls it made. No callee throws, so the
  two \<open>catch\<close> blocks are not entered.
\<close>

definition processTeamAssignment :: "World \<Rightarrow> processing_result \<times> call list" where
  "processTeamAssignment w =
     (case OPENAI_API_KEY w of
        None \<Rightarrow> (ProcessingFailed NoApiKey, [])
      | Some openaiApiKey \<Rightarrow>
          if openaiApiKey = [] then (ProcessingFailed NoApiKey, [])
          else
            case getTeam w of
              None \<Rightarrow> (ProcessingFailed TeamNotFound, [])
            | Some team \<Rightarrow>
                if \<not> isComplete team then (ProcessingFailed TeamNotComplete, [])
                else
                  case getOrCreateSession w of
                    Inl err \<Rightarrow> (ProcessingFailed (SessionNotCreated err), [])
                  | Inr session \<Rightarrow>
                      let sid = s_id session;
                          c1 = [UpdateSessionStatus sid Scoring, GenerateScoreMatrix]
                      in case fst (generateScoreMatrix (w_parse w) (clock w) team
                                     (s_roles session) (w_llm w) 0) of
                           ScoringFailed e \<Rightarrow>
                             (ProcessingFailed (ScoringError e),
                              c1 @ [UpdateSessionStatus sid Pending])
                         | Scored scoreMatrix \<Rightarrow>
                             let c2 = c1 @ [UpdateSessionStatus sid Assigning, AssignRoles]
                             in case assignRoles (w_munkres w) (clock w) team (s_roles session)
                                       scoreMatrix of
                                  Inl e \<Rightarrow>
                                    (ProcessingFailed (AssignmentError e),
                                     c2 @ [UpdateSessionStatus sid Pending])
                                | Inr asg \<Rightarrow>
                                    let c3 = c2 @ [SaveAssignmentData sid asg (Some scoreMatrix)]
                                    in case saveAssignmentData w of
                                         Some err \<Rightarrow>
                                           (ProcessingFailed (SaveError err),
                                            c3 @ [UpdateSessionStatus sid Pending])
                                       | None \<Rightarrow>
                                           (ProcessingSucceeded
                                              \<lparr>pd_sessionId = sid, pd_assignment = asg,
                                               justificationsPending = True\<rparr>,
                                            c3 @ [UpdateSessionStatus sid Justifying,
                                                  GenerateJustificationsBackground sid]))"

text \<open>
  \<open>triggerAutoAssignment\<close> resolves when the result is a success and rejects otherwise;
  the queue sees nothing else of the run.
\<close>

definition triggerAutoAssignment :: "World \<Rightarrow> bool \<times> call list" where
  "triggerAutoAssignment w =
     (case processTeamAssignment w of
        (ProcessingSucceeded d, cs) \<Rightarrow> (True, cs)
      | (ProcessingFailed e, cs) \<Rightarrow> (False, cs))"

text \<open>
  Concrete scenario 2 of the specification: a team of three, three roles, and a reply
  whose second row has two entries. \<open>scenario2_parse\<close> is what \<open>JSON.parse\<close> returns on
  the text of the reply; \<open>scenario2_valid_parse\<close> answers a well-formed matrix instead.
\<close>

definition scenario2_team :: Team where
  "scenario2_team =
     \<lparr>t_id = ascii ''team-2'',
      applicants = [\<lparr>a_id = ascii ''m0'', a_name = ascii ''Ann''\<rparr>,
                    \<lparr>a_id = ascii ''m1'', a_name = ascii ''Bob''\<rparr>,
                    \<lparr>a_id = ascii ''m2'', a_name = ascii ''Cy''\<rparr>],
      isComplete = True, maxMembers = 3\<rparr>"

definition scenario2_roles :: "RoleDefinition list" where
  "scenario2_roles =
     [\<lparr>r_id = ascii ''r0'', r_name = ascii ''Captain''\<rparr>,
      \<lparr>r_id = ascii ''r1'', r_name = ascii ''Driver''\<rparr>,
      \<lparr>r_id = ascii ''r2'', r_name = ascii ''Mechanic''\<rparr>]"

definition scenario2_session :: AssignmentSession where
  "scenario2_session =
     \<lparr>s_id = ascii ''session-2'', s_teamId = ascii ''team-2'', s_roles = scenario2_roles,
      s_scoreMatrix = None, s_assignment = None, s_status = Pending\<rparr>"

definition scenario2_content :: js_string where
  "scenario2_content = ascii ''[[50,60,70],[80,90],[10,20,30]]''"

definition scenario2_parse :: "js_string \<Rightarrow> js_string + json" where
  "scenario2_parse text =
     (if text = scenario2_content
      then Inr (JArr [JArr [JNum 50, JNum 60, JNum 70], JArr [JNum 80, JNum 90],
                      JArr [JNum 10, JNum 20, JNum 30]])
      else Inl (ascii ''SyntaxError: Unexpected token''))"

definition scenario2_world :: World where
  "scenario2_world =
     \<lparr>OPENAI_API_KEY = Some (ascii ''sk-test''),
      getTeam = Some scenario2_team,
      getAssignmentForTeam = Some scenario2_session,
      createAssignmentSession = Inl (ascii ''not called''),
      w_parse = scenario2_parse,
      w_llm = (\<lambda>k. Completion scenario2_content),
      w_munkres = (\<lambda>cost. NoResult),
      saveAssignmentData = None,
      clock = 0\<rparr>"


text \<open>
  How \<open>Promise.race\<close> of the justification and the two-minute timer settles in
  \<open>generateJustificationsBackground\<close>: with the result of
  \<open>JustifierRunner.generateJustificationsWithRetry\<close>, by the rejection of the timer, or by
  another rejection.
\<close>

datatype race_outcome =
    RaceResult justify_result
  | RaceTimeout
  | RaceRejected js_string

definition JUSTIFICATION_TIMEOUT :: nat where
  "JUSTIFICATION_TIMEOUT = 120000"

text \<open>
  \<open>generateJustificationsBackground\<close>, given how the race settles and what
  \<open>getAssignmentSession(sessionId)\<close> returns (\<open>None\<close> is \<open>null\<close>: the row is not found or
  the query fails). The result of \<open>saveAssignmentData\<close> is only logged.
\<close>

definition generateJustificationsBackground ::
  "js_string \<Rightarrow> race_outcome \<Rightarrow> AssignmentSession option \<Rightarrow> call list" where
  "generateJustificationsBackground sessionId race fetched =
     (case race of
        RaceResult (Justified updatedAssignment) \<Rightarrow>
          (case fetched of
             Some session \<Rightarrow>
               [SaveAssignmentData sessionId updatedAssignment None,
                UpdateSessionStatus sessionId Complete]
           | None \<Rightarrow> [])
      | RaceResult (JustifyFailed e) \<Rightarrow> [UpdateSessionStatus sessionId Complete]
      | RaceTimeout \<Rightarrow> [UpdateSessionStatus sessionId Complete]
      | RaceRejected msg \<Rightarrow> [UpdateSessionStatus sessionId Complete])"

section \<open>AssignmentHealthChecker (src/lib/services/AssignmentHealthChecker.ts)\<close>

text \<open>
  A row of \<open>assignment_sessions\<close> as \<open>recoverStuckTeam\<close> receives it: the status is the
  text the database holds, the assignment any JSON value (\<open>JNull\<close> when there is none).
\<close>

record StuckSession =
  row_id :: js_string
  row_team_id :: js_string
  row_status :: js_string
  row_assignment :: json
  row_created_at :: nat

datatype recovery_action =
    completed_without_justifications
  | reset_and_requeued
  | unknown_status
  | recovery_failed

record RecoveryResult =
  rr_success :: bool
  rr_action :: recovery_action
  rr_error :: "js_string option"

text \<open>
  \<open>recoverStuckTeam\<close>: its result and the calls it made. Neither \<open>updateSessionStatus\<close>
  nor \<open>addTeam\<close> throws, so the \<open>catch\<close> (action \<open>recovery_failed\<close>) is not entered.
\<close>

definition recoverStuckTeam :: "StuckSession \<Rightarrow> RecoveryResult \<times> call list" where
  "recoverStuckTeam row =
     (if row_status row = ascii ''justifying'' then
        (if truthy (row_assignment row) \<and> objectKeysCount (row_assignment row) > 0
         then (\<lparr>rr_success = True, rr_action = completed_without_justifications,
                 rr_error = None\<rparr>,
               [UpdateSessionStatus (row_id row) Complete])
         else (\<lparr>rr_success = True, rr_action = reset_and_requeued, rr_error = None\<rparr>,
               [UpdateSessionStatus (row_id row) Pending, QueueAddTeam (row_team_id row)]))
      else if row_status row = ascii ''scoring'' \<or> row_status row = ascii ''assigning'' then
        (\<lparr>rr_success = True, rr_action = reset_and_requeued, rr_error = None\<rparr>,
         [UpdateSessionStatus (row_id row) Pending, QueueAddTeam (row_team_id row)])
      else
        (\<lparr>rr_success = False, rr_action = unknown_status,
          rr_error = Some (ascii ''Unknown status: '' @ row_status row)\<rparr>,
         []))"

text \<open>
  The test \<open>assignment && Object.keys(assignment).length > 0\<close> of \<open>recoverStuckTeam\<close>, and
  a row for the examples.
\<close>

definition hasAssignment :: "json \<Rightarrow> bool" where
  "hasAssignment a = (truthy a \<and> objectKeysCount a > 0)"

definition stuckRow :: "string \<Rightarrow> json \<Rightarrow> StuckSession" where
  "stuckRow st a =
     \<lparr>row_id = ascii ''session-1'', row_team_id = ascii ''team-1'', row_status = ascii st,
      row_assignment = a, row_created_at = 0\<rparr>"

text \<open>The calls of a run that reach the queue, applied to it in order.\<close>

fun applyToQueue :: "nat \<Rightarrow> call list \<Rightarrow> AssignmentQueue \<Rightarrow> AssignmentQueue" where
  "applyToQueue now [] q = q"
| "applyToQueue now (QueueAddTeam tid # cs) q = applyToQueue now cs (addTeam now tid q)"
| "applyToQueue now (c # cs) q = applyToQueue now cs q"

chapter \<open>Properties\<close>

section \<open>JavaScript numbers\<close>

text \<open>
  \<open>exponent\<close> finds the binade, and rounding leaves a number of at most 53 significant
  bits as it is.
\<close>

lemma pow2_powi: "pow2 e = 2 powi e"
  by (simp add: pow2_def power_int_def field_simps)

lemma pow2_pos [simp]: "0 < pow2 e"
  by (simp add: pow2_powi)

lemma pow2_mono: "a \<le> b \<Longrightarrow> pow2 a \<le> pow2 b"
  by (simp add: pow2_powi power_int_increasing)

lemma pow2_strict_mono: "a < b \<Longrightarrow> pow2 a < pow2 b"
  by (simp add: pow2_powi power_int_strict_increasing)

lemma pow2_less_iff: "pow2 a < pow2 b \<longleftrightarrow> a < b"
  using pow2_mono [of b a] pow2_strict_mono [of a b] by (auto simp: not_le [symmetric])

lemma pow2_add: "pow2 (a + b) = pow2 a * pow2 b"
  by (simp add: pow2_powi power_int_add)

lemma pow2_nat: "pow2 (int n) = 2 ^ n"
  by (simp add: pow2_def)

lemma pow2_neg_nat: "pow2 (- int n) = 1 / 2 ^ n"
  by (simp add: pow2_powi power_int_minus field_simps)

lemma exponentUp_ge: "e \<le> exponentUp e x"
proof (induction e x rule: exponentUp.induct)
  case (1 e x)
  show ?case
  proof (cases "e < 1023 \<and> pow2 (e + 1) \<le> x")
    case True
    then have "exponentUp e x = exponentUp (e + 1) x" by (subst exponentUp.simps) simp
    with 1 True show ?thesis by simp
  next
    case False
    then have "exponentUp e x = e" by (subst exponentUp.simps) auto
    then show ?thesis by simp
  qed
qed

lemma exponentDown_cases:
  "- 1022 \<le> e \<Longrightarrow> exponentDown e x = - 1022 \<or> pow2 (exponentDown e x) \<le> x"
proof (induction e x rule: exponentDown.induct)
  case (1 e x)
  show ?case
  proof (cases "- 1022 < e \<and> x < pow2 e")
    case True
    then have "exponentDown e x = exponentDown (e - 1) x"
      by (subst exponentDown.simps) simp
    with 1 True show ?thesis by simp
  next
    case False
    then have "exponentDown e x = e" by (subst exponentDown.simps) auto
    with False 1(2) show ?thesis by auto
  qed
qed

lemma exponent_cases: "exponent x = - 1022 \<or> pow2 (exponent x) \<le> \<bar>x\<bar>"
proof -
  have "- 1022 \<le> exponentUp 0 \<bar>x\<bar>" using exponentUp_ge [of 0 "\<bar>x\<bar>"] by simp
  then show ?thesis unfolding exponent_def by (rule exponentDown_cases)
qed

lemma exponentUp_eq:
  "e0 \<le> e \<Longrightarrow> e \<le> 1023 \<Longrightarrow> pow2 e \<le> x \<Longrightarrow> x < pow2 (e + 1) \<Longrightarrow> exponentUp e0 x = e"
proof (induction e0 x rule: exponentUp.induct)
  case (1 e0 x)
  show ?case
  proof (cases "e0 = e")
    case True
    with 1(5) show ?thesis by (subst exponentUp.simps) simp
  next
    case False
    with 1(2) have lt: "e0 + 1 \<le> e" by simp
    then have "pow2 (e0 + 1) \<le> x" using pow2_mono [of "e0 + 1" e] 1(4) by simp
    moreover have "e0 < 1023" using lt 1(3) by simp
    ultimately have "exponentUp e0 x = exponentUp (e0 + 1) x" by (subst exponentUp.simps) simp
    also have "\<dots> = e" using 1 lt \<open>e0 < 1023\<close> \<open>pow2 (e0 + 1) \<le> x\<close> by simp
    finally show ?thesis .
  qed
qed

lemma exponentDown_eq:
  "e \<le> e0 \<Longrightarrow> - 1022 \<le> e \<Longrightarrow> pow2 e \<le> x \<Longrightarrow> x < pow2 (e + 1) \<Longrightarrow> exponentDown e0 x = e"
proof (induction e0 x rule: exponentDown.induct)
  case (1 e0 x)
  show ?case
  proof (cases "e0 = e")
    case True
    with 1(4) show ?thesis by (subst exponentDown.simps) simp
  next
    case False
    with 1(2) have lt: "e + 1 \<le> e0" by simp
    then have "x < pow2 e0" using pow2_mono [of "e + 1" e0] 1(5) by simp
    moreover have "- 1022 < e0" using lt 1(3) by simp
    ultimately have "exponentDown e0 x = exponentDown (e0 - 1) x"
      by (subst exponentDown.simps) simp
    also have "\<dots> = e" using 1 lt \<open>- 1022 < e0\<close> \<open>x < pow2 e0\<close> by simp
    finally show ?thesis .
  qed
qed

lemma exponent_eq:
  assumes "pow2 e \<le> \<bar>x\<bar>" "\<bar>x\<bar> < pow2 (e + 1)" "- 1022 \<le> e" "e \<le> 1023"
  shows "exponent x = e"
proof (cases "0 \<le> e")
  case True
  then have "exponentUp 0 \<bar>x\<bar> = e" using assms by (simp add: exponentUp_eq)
  moreover have "exponentDown e \<bar>x\<bar> = e" using assms by (simp add: exponentDown_eq)
  ultimately show ?thesis by (simp add: exponent_def)
next
  case False
  then have "pow2 (e + 1) \<le> pow2 0" by (intro pow2_mono) simp
  with assms(2) have "\<bar>x\<bar> < pow2 1" using pow2_strict_mono [of 0 1] by simp
  then have "exponentUp 0 \<bar>x\<bar> = 0" by (subst exponentUp.simps) simp
  moreover have "exponentDown 0 \<bar>x\<bar> = e" using assms False by (simp add: exponentDown_eq)
  ultimately show ?thesis by (simp add: exponent_def)
qed

lemma roundHalfEven_near:
  assumes "\<bar>m - of_int n\<bar> < 1 / 2"
  shows "roundHalfEven m = n"
proof (cases "of_int n \<le> m")
  case True
  with assms have "\<lfloor>m\<rfloor> = n" by (simp add: floor_eq_iff)
  with assms True show ?thesis by (simp add: roundHalfEven_def Let_def)
next
  case False
  with assms have f: "\<lfloor>m\<rfloor> = n - 1" by (simp add: floor_eq_iff)
  with assms False show ?thesis by (simp add: roundHalfEven_def Let_def)
qed

lemma roundToDouble_eq:
  assumes "exponent x = e"
    and "\<bar>x / pow2 (e - 52) - of_int n\<bar> < 1 / 2"
    and "\<bar>of_int n * pow2 (e - 52)\<bar> < pow2 1024"
    and "r = of_int n * pow2 (e - 52)"
  shows "roundToDouble x = Finite r"
proof -
  have "roundHalfEven (x / pow2 (exponent x - 52)) = n"
    using assms(2) unfolding assms(1) by (rule roundHalfEven_near)
  moreover have "\<not> pow2 1024 \<le> r" "\<not> r \<le> - pow2 1024"
    using assms(3) unfolding assms(4) by (simp_all add: abs_less_iff)
  ultimately show ?thesis by (simp add: roundToDouble_def Let_def assms(1,4))
qed

lemma roundToDouble_exact:
  assumes grid: "x * 2 ^ k \<in> \<int>" and small: "\<bar>x\<bar> * 2 ^ k < 2 ^ 53" and k: "k \<le> 1074"
  shows "roundToDouble x = Finite x"
proof -
  let ?e = "exponent x"
  have le: "?e - 52 \<le> - int k"
  proof -
    from exponent_cases [of x] show ?thesis
    proof
      assume "?e = - 1022" with k show ?thesis by simp
    next
      assume "pow2 ?e \<le> \<bar>x\<bar>"
      then have "pow2 ?e * 2 ^ k \<le> \<bar>x\<bar> * 2 ^ k" by simp
      with small have "pow2 ?e * 2 ^ k < 2 ^ 53" by linarith
      moreover have "pow2 53 = 2 ^ 53" by (simp add: pow2_def)
      ultimately have "pow2 ?e * pow2 (int k) < pow2 53" by (simp only: pow2_nat)
      then have "pow2 (?e + int k) < pow2 53" by (simp add: pow2_add)
      then show ?thesis by (simp add: pow2_less_iff)
    qed
  qed
  define j where "j = nat (- int k - (?e - 52))"
  have ulp: "pow2 (?e - 52) = 1 / (2 ^ k * 2 ^ j)"
  proof -
    have "?e - 52 = - (int k + int j)" using le by (simp add: j_def)
    then have "pow2 (?e - 52) = pow2 (- (int k + int j))" by simp
    also have "\<dots> = pow2 (- int (k + j))" by simp
    also have "\<dots> = 1 / 2 ^ (k + j)" by (rule pow2_neg_nat)
    finally show ?thesis by (simp only: power_add)
  qed
  from grid obtain a :: int where a: "x * 2 ^ k = of_int a" by (auto elim: Ints_cases)
  have q: "x / pow2 (?e - 52) = of_int (a * 2 ^ j)"
    using a by (simp add: ulp algebra_simps)
  have nz: "pow2 (?e - 52) \<noteq> 0" by (simp add: pow2_powi)
  have xeq: "x = of_int (a * 2 ^ j) * pow2 (?e - 52)"
    using q nonzero_divide_eq_eq [OF nz, of x "of_int (a * 2 ^ j)"] by blast
  have "\<bar>x\<bar> < pow2 1024"
  proof -
    have "\<bar>x\<bar> \<le> \<bar>x\<bar> * 2 ^ k" by (simp add: mult_le_cancel_left1)
    also have "\<dots> < 2 ^ 53" by (rule small)
    also have "\<dots> \<le> pow2 1024" using pow2_mono [of 53 1024] by (simp add: pow2_def)
    finally show ?thesis .
  qed
  then have "\<bar>of_int (a * 2 ^ j) * pow2 (?e - 52)\<bar> < pow2 1024"
    using xeq by simp
  moreover have "\<bar>x / pow2 (?e - 52) - of_int (a * 2 ^ j)\<bar> < 1 / 2"
    by (simp add: q)
  ultimately show ?thesis
    using roundToDouble_eq [of x ?e "a * 2 ^ j" x] xeq by blast
qed

text \<open>
  Two roundings on a tie, both to the even mantissa: with the doubles of 0.1, 0.2 and 0.3,
  \<open>0.1 + 0.2 + 0.3\<close> is 0.6000000000000001 (\<open>5404319552844596 / 2^53\<close>), the double next
  to that of 0.6 (\<open>5404319552844595 / 2^53\<close>).
\<close>

lemma roundHalfEven_tie:
  assumes "m = of_int f + 1 / 2"
  shows "roundHalfEven m = (if even f then f else f + 1)"
proof -
  have "\<lfloor>m\<rfloor> = f" unfolding assms by (simp add: floor_eq_iff)
  then show ?thesis by (simp add: roundHalfEven_def Let_def assms)
qed

lemma roundToDouble_at:
  assumes "exponent x = e"
    and "roundHalfEven (x / pow2 (e - 52)) = n"
    and "\<bar>of_int n * pow2 (e - 52)\<bar> < pow2 1024"
    and "r = of_int n * pow2 (e - 52)"
  shows "roundToDouble x = Finite r"
proof -
  have "\<not> pow2 1024 \<le> r" "\<not> r \<le> - pow2 1024"
    using assms(3) unfolding assms(4) by (simp_all add: abs_less_iff)
  then show ?thesis by (simp add: roundToDouble_def Let_def assms(1,2,4))
qed

lemma tenth_plus_fifth:
  "js_plus (Finite (3602879701896397 / 2 ^ 55)) (Finite (3602879701896397 / 2 ^ 54))
     = Finite (5404319552844596 / 2 ^ 54)"
proof -
  let ?x = "3602879701896397 / 2 ^ 55 + 3602879701896397 / 2 ^ 54 :: rat"
  have "roundToDouble ?x = Finite (5404319552844596 / 2 ^ 54)"
  proof (rule roundToDouble_at [where e = "- 2" and n = 5404319552844596])
    show "exponent ?x = - 2" by (rule exponent_eq) (simp_all add: pow2_def)
    have "roundHalfEven (?x / pow2 (- 2 - 52))
        = (if even (5404319552844595 :: int) then 5404319552844595 else 5404319552844595 + 1)"
      by (rule roundHalfEven_tie) (simp add: pow2_def)
    then show "roundHalfEven (?x / pow2 (- 2 - 52)) = 5404319552844596" by simp
  qed (simp_all add: pow2_def)
  then show ?thesis by (simp only: js_plus.simps)
qed

lemma three_tenths_more:
  "js_plus (Finite (5404319552844596 / 2 ^ 54)) (Finite (5404319552844595 / 2 ^ 54))
     = Finite (5404319552844596 / 2 ^ 53)"
proof -
  let ?x = "5404319552844596 / 2 ^ 54 + 5404319552844595 / 2 ^ 54 :: rat"
  have "roundToDouble ?x = Finite (5404319552844596 / 2 ^ 53)"
  proof (rule roundToDouble_at [where e = "- 1" and n = 5404319552844596])
    show "exponent ?x = - 1" by (rule exponent_eq) (simp_all add: pow2_def)
    have "roundHalfEven (?x / pow2 (- 1 - 52))
        = (if even (5404319552844595 :: int) then 5404319552844595 else 5404319552844595 + 1)"
      by (rule roundHalfEven_tie) (simp add: pow2_def)
    then show "roundHalfEven (?x / pow2 (- 1 - 52)) = 5404319552844596" by simp
  qed (simp_all add: pow2_def)
  then show ?thesis by (simp only: js_plus.simps)
qed

lemma sum_of_tenths:
  "js_plus (js_plus (Finite (3602879701896397 / 2 ^ 55)) (Finite (3602879701896397 / 2 ^ 54)))
     (Finite (5404319552844595 / 2 ^ 54))
   = Finite (5404319552844596 / 2 ^ 53)"
  by (simp only: tenth_plus_fifth three_tenths_more)

section \<open>AssignmentQueue\<close>

lemma ascii_simps:
  "ascii ''A'' = [65]" "ascii ''B'' = [66]" "ascii ''C'' = [67]" "ascii ''D'' = [68]" "ascii ''E'' = [69]"
  by (simp_all add: ascii_def)

lemma poolInv_updateStats [simp]: "poolInv (updateStats q) = poolInv q"
  by (simp add: poolInv_def updateStats_def)

lemma poolInv_waitingQueue [simp]: "poolInv (q\<lparr>waitingQueue := w\<rparr>) = poolInv q"
  by (simp add: poolInv_def)

lemma poolInv_stats [simp]: "poolInv (q\<lparr>stats := s\<rparr>) = poolInv q"
  by (simp add: poolInv_def)

lemma poolInv_timers [simp]: "poolInv (q\<lparr>timers := ts\<rparr>) = poolInv q"
  by (simp add: poolInv_def)

lemma poolInv_resumptions [simp]: "poolInv (q\<lparr>resumptions := n\<rparr>) = poolInv q"
  by (simp add: poolInv_def)

lemma poolInv_startProcessing:
  "poolInv q \<Longrightarrow> card (processingPool q) < MAX_CONCURRENT \<Longrightarrow> poolInv (startProcessing item q)"
  by (auto simp: poolInv_def startProcessing_def updateStats_def card_insert_if)

lemma poolInv_addTeam: "poolInv q \<Longrightarrow> poolInv (addTeam now tid q)"
  by (simp add: addTeam_def Let_def poolInv_startProcessing)

lemma poolInv_processNext: "poolInv q \<Longrightarrow> poolInv (processNext q)"
  by (auto simp: processNext_def poolInv_startProcessing split: list.splits)

lemma poolInv_delete:
  "poolInv q \<Longrightarrow> poolInv (q\<lparr>running := r, processingPool := processingPool q - {t}\<rparr>)"
  by (auto simp: poolInv_def card_Diff_singleton_if)

lemma poolInv_pipelineResolved: "poolInv q \<Longrightarrow> poolInv (pipelineResolved item q)"
  unfolding pipelineResolved_def Let_def
  by (intro poolInv_processNext) (simp add: poolInv_delete)

lemma poolInv_pipelineRejected: "poolInv q \<Longrightarrow> poolInv (pipelineRejected item q)"
  unfolding pipelineRejected_def Let_def retryTeam_def
  by (auto intro!: poolInv_processNext simp: poolInv_delete)

lemma poolInv_resumeComplete: "poolInv q \<Longrightarrow> poolInv (resumeComplete q)"
  unfolding resumeComplete_def by (auto intro!: poolInv_processNext)

lemma poolInv_retryTimerFired: "poolInv q \<Longrightarrow> poolInv (retryTimerFired item q)"
  unfolding retryTimerFired_def by (auto intro!: poolInv_processNext)

lemma poolInv_forceRetryTeam: "poolInv q \<Longrightarrow> poolInv (forceRetryTeam now tid q)"
  unfolding forceRetryTeam_def
  by (rule poolInv_addTeam) (auto simp: poolInv_def card_Diff_singleton_if)

lemma poolInv_clearQueue: "poolInv (clearQueue q)"
  by (simp add: poolInv_def clearQueue_def MAX_CONCURRENT_def)

lemma poolInv_newQueue: "poolInv newQueue"
  by (simp add: poolInv_def newQueue_def)

lemma poolInv_step: "poolInv q \<Longrightarrow> step e q = Some q' \<Longrightarrow> poolInv q'"
  by (cases e)
     (auto simp: poolInv_addTeam poolInv_pipelineResolved poolInv_pipelineRejected
        poolInv_resumeComplete poolInv_retryTimerFired poolInv_forceRetryTeam
        poolInv_clearQueue split: if_splits)

lemma poolInv_run: "run es q = Some q' \<Longrightarrow> poolInv q \<Longrightarrow> poolInv q'"
proof (induction es arbitrary: q)
  case Nil
  then show ?case by simp
next
  case (Cons e es)
  then show ?case by (auto split: option.splits dest: poolInv_step)
qed

lemma addTeam_starts:
  assumes "tid \<notin> processingPool q" "tid \<notin> set (waitingTeams q)"
    "card (processingPool q) < MAX_CONCURRENT"
  shows "addTeam now tid q =
     updateStats (q\<lparr>processingPool := insert tid (processingPool q),
        running := running q @
          [\<lparr>teamId = tid, completedAt = now, retryCount = 0, addedToQueueAt = now\<rparr>]\<rparr>)"
  using assms
  by (auto simp: addTeam_def waitingTeams_def find_None_iff startProcessing_def
      updateStats_def Let_def)

lemma addTeam_waits:
  assumes "tid \<notin> processingPool q" "tid \<notin> set (waitingTeams q)"
    "\<not> card (processingPool q) < MAX_CONCURRENT"
  shows "addTeam now tid q =
     updateStats (q\<lparr>waitingQueue := waitingQueue q @
          [\<lparr>teamId = tid, completedAt = now, retryCount = 0, addedToQueueAt = now\<rparr>]\<rparr>)"
  using assms
  by (auto simp: addTeam_def waitingTeams_def find_None_iff Let_def)

lemma five_teams:
  assumes d: "distinct [t1, t2, t3, t4, t5]"
  shows "run [AddTeam n1 t1, AddTeam n2 t2, AddTeam n3 t3, AddTeam n4 t4, AddTeam n5 t5] newQueue =
    Some \<lparr>processingPool = {t3, t2, t1},
     waitingQueue =
       [\<lparr>teamId = t4, completedAt = n4, retryCount = 0, addedToQueueAt = n4\<rparr>,
        \<lparr>teamId = t5, completedAt = n5, retryCount = 0, addedToQueueAt = n5\<rparr>],
     stats = \<lparr>processing = 3, waiting = 2, totalProcessed = 0, totalFailed = 0\<rparr>,
     running =
       [\<lparr>teamId = t1, completedAt = n1, retryCount = 0, addedToQueueAt = n1\<rparr>,
        \<lparr>teamId = t2, completedAt = n2, retryCount = 0, addedToQueueAt = n2\<rparr>,
        \<lparr>teamId = t3, completedAt = n3, retryCount = 0, addedToQueueAt = n3\<rparr>],
     timers = [], resumptions = 0\<rparr>"
proof -
  have d': "t1 \<noteq> t2" "t1 \<noteq> t3" "t1 \<noteq> t4" "t1 \<noteq> t5" "t2 \<noteq> t3" "t2 \<noteq> t4"
    "t2 \<noteq> t5" "t3 \<noteq> t4" "t3 \<noteq> t5" "t4 \<noteq> t5"
    "t2 \<noteq> t1" "t3 \<noteq> t1" "t4 \<noteq> t1" "t5 \<noteq> t1" "t3 \<noteq> t2" "t4 \<noteq> t2"
    "t5 \<noteq> t2" "t4 \<noteq> t3" "t5 \<noteq> t3" "t5 \<noteq> t4"
    using d by auto
  define q1 where "q1 = addTeam n1 t1 newQueue"
  define q2 where "q2 = addTeam n2 t2 q1"
  define q3 where "q3 = addTeam n3 t3 q2"
  define q4 where "q4 = addTeam n4 t4 q3"
  define q5 where "q5 = addTeam n5 t5 q4"
  have e1: "q1 = \<lparr>processingPool = {t1}, waitingQueue = [],
     stats = \<lparr>processing = 1, waiting = 0, totalProcessed = 0, totalFailed = 0\<rparr>,
     running = [\<lparr>teamId = t1, completedAt = n1, retryCount = 0, addedToQueueAt = n1\<rparr>],
     timers = [], resumptions = 0\<rparr>"
    unfolding q1_def
    by (subst addTeam_starts)
       (simp_all add: newQueue_def waitingTeams_def MAX_CONCURRENT_def updateStats_def)
  have e2: "q2 = \<lparr>processingPool = {t2, t1}, waitingQueue = [],
     stats = \<lparr>processing = 2, waiting = 0, totalProcessed = 0, totalFailed = 0\<rparr>,
     running = [\<lparr>teamId = t1, completedAt = n1, retryCount = 0, addedToQueueAt = n1\<rparr>,
        \<lparr>teamId = t2, completedAt = n2, retryCount = 0, addedToQueueAt = n2\<rparr>],
     timers = [], resumptions = 0\<rparr>"
    unfolding q2_def
    by (subst addTeam_starts)
       (simp_all add: d' e1 waitingTeams_def MAX_CONCURRENT_def updateStats_def)
  have e3: "q3 = \<lparr>processingPool = {t3, t2, t1}, waitingQueue = [],
     stats = \<lparr>processing = 3, waiting = 0, totalProcessed = 0, totalFailed = 0\<rparr>,
     running = [\<lparr>teamId = t1, completedAt = n1, retryCount = 0, addedToQueueAt = n1\<rparr>,
        \<lparr>teamId = t2, completedAt = n2, retryCount = 0, addedToQueueAt = n2\<rparr>,
        \<lparr>teamId = t3, completedAt = n3, retryCount = 0, addedToQueueAt = n3\<rparr>],
     timers = [], resumptions = 0\<rparr>"
    unfolding q3_def
    by (subst addTeam_starts)
       (simp_all add: d' e2 waitingTeams_def MAX_CONCURRENT_def updateStats_def)
  have e4: "q4 = \<lparr>processingPool = {t3, t2, t1}, waitingQueue =
       [\<lparr>teamId = t4, completedAt = n4, retryCount = 0, addedToQueueAt = n4\<rparr>],
     stats = \<lparr>processing = 3, waiting = 1, totalProcessed = 0, totalFailed = 0\<rparr>,
     running = [\<lparr>teamId = t1, completedAt = n1, retryCount = 0, addedToQueueAt = n1\<rparr>,
        \<lparr>teamId = t2, completedAt = n2, retryCount = 0, addedToQueueAt = n2\<rparr>,
        \<lparr>teamId = t3, completedAt = n3, retryCount = 0, addedToQueueAt = n3\<rparr>],
     timers = [], resumptions = 0\<rparr>"
    unfolding q4_def
    by (subst addTeam_waits)
       (simp_all add: d' e3 waitingTeams_def MAX_CONCURRENT_def updateStats_def)
  have e5: "q5 = \<lparr>processingPool = {t3, t2, t1}, waitingQueue =
       [\<lparr>teamId = t4, completedAt = n4, retryCount = 0, addedToQueueAt = n4\<rparr>,
        \<lparr>teamId = t5, completedAt = n5, retryCount = 0, addedToQueueAt = n5\<rparr>],
     stats = \<lparr>processing = 3, waiting = 2, totalProcessed = 0, totalFailed = 0\<rparr>,
     running = [\<lparr>teamId = t1, completedAt = n1, retryCount = 0, addedToQueueAt = n1\<rparr>,
        \<lparr>teamId = t2, completedAt = n2, retryCount = 0, addedToQueueAt = n2\<rparr>,
        \<lparr>teamId = t3, completedAt = n3, retryCount = 0, addedToQueueAt = n3\<rparr>],
     timers = [], resumptions = 0\<rparr>"
    unfolding q5_def
    by (subst addTeam_waits)
       (simp_all add: d' e4 waitingTeams_def MAX_CONCURRENT_def updateStats_def)
  have "run [AddTeam n1 t1, AddTeam n2 t2, AddTeam n3 t3, AddTeam n4 t4, AddTeam n5 t5] newQueue
        = Some q5"
    by (simp add: q1_def q2_def q3_def q4_def q5_def)
  then show ?thesis by (simp only: e5)
qed

text \<open>
  When the pool is full and a running team of the pool settles, the head of the waiting
  list, and nothing else, takes the slot.
\<close>

lemma processNext_admits_one:
  assumes "finite (processingPool q)" "card (processingPool q) < MAX_CONCURRENT"
    "waitingQueue q = w # ws"
  shows "processingPool (processNext q) = insert (teamId w) (processingPool q)"
    "waitingQueue (processNext q) = ws"
    "running (processNext q) = running q @ [w]"
  using assms by (simp_all add: processNext_def startProcessing_def updateStats_def)

lemma pipelineResolved_admits_one:
  assumes "finite (processingPool q)" "card (processingPool q) = MAX_CONCURRENT"
    "teamId item \<in> processingPool q" "waitingQueue q = w # ws"
  shows "processingPool (pipelineResolved item q) =
           insert (teamId w) (processingPool q - {teamId item})"
    "waitingQueue (pipelineResolved item q) = ws"
    "running (pipelineResolved item q) = remove1 item (running q) @ [w]"
proof -
  let ?q = "updateStats
     (q\<lparr>running := remove1 item (running q),
         processingPool := processingPool q - {teamId item},
         stats := (stats q)\<lparr>totalProcessed := totalProcessed (stats q) + 1\<rparr>\<rparr>)"
  have eq: "pipelineResolved item q = processNext ?q"
    by (simp add: pipelineResolved_def Let_def)
  have c: "card (processingPool ?q) < MAX_CONCURRENT" "finite (processingPool ?q)"
    "waitingQueue ?q = w # ws"
    using assms by (simp_all add: updateStats_def MAX_CONCURRENT_def)
  show "processingPool (pipelineResolved item q) =
           insert (teamId w) (processingPool q - {teamId item})"
    unfolding eq by (subst processNext_admits_one(1)[OF c(2) c(1) c(3)]) (simp add: updateStats_def)
  show "waitingQueue (pipelineResolved item q) = ws"
    unfolding eq by (rule processNext_admits_one(2)[OF c(2) c(1) c(3)])
  show "running (pipelineResolved item q) = remove1 item (running q) @ [w]"
    unfolding eq by (subst processNext_admits_one(3)[OF c(2) c(1) c(3)]) (simp add: updateStats_def)
qed

lemma pipelineRejected_then_resume_admits_one:
  assumes "finite (processingPool q)" "card (processingPool q) = MAX_CONCURRENT"
    "teamId item \<in> processingPool q" "waitingQueue q = w # ws"
    "retryCount item < MAX_RETRIES"
  shows "processingPool (resumeComplete (pipelineRejected item q)) =
           insert (teamId w) (processingPool q - {teamId item})"
    "waitingQueue (resumeComplete (pipelineRejected item q)) = ws"
    "running (resumeComplete (pipelineRejected item q)) = remove1 item (running q) @ [w]"
    "timers (resumeComplete (pipelineRejected item q)) =
       timers q @ [item\<lparr>retryCount := retryCount item + 1\<rparr>]"
    "resumptions (pipelineRejected item q) = resumptions q + 1"
proof -
  let ?q = "updateStats
     (q\<lparr>running := remove1 item (running q),
         processingPool := processingPool q - {teamId item},
         timers := timers q @ [item\<lparr>retryCount := retryCount item + 1\<rparr>]\<rparr>)"
  have eq: "resumeComplete (pipelineRejected item q) = processNext ?q"
    using assms(5)
    by (simp add: resumeComplete_def pipelineRejected_def retryTeam_def Let_def updateStats_def)
  have c: "card (processingPool ?q) < MAX_CONCURRENT" "finite (processingPool ?q)"
    "waitingQueue ?q = w # ws"
    using assms by (simp_all add: updateStats_def MAX_CONCURRENT_def)
  show "processingPool (resumeComplete (pipelineRejected item q)) =
           insert (teamId w) (processingPool q - {teamId item})"
    unfolding eq by (subst processNext_admits_one(1)[OF c(2) c(1) c(3)]) (simp add: updateStats_def)
  show "waitingQueue (resumeComplete (pipelineRejected item q)) = ws"
    unfolding eq by (rule processNext_admits_one(2)[OF c(2) c(1) c(3)])
  show "running (resumeComplete (pipelineRejected item q)) = remove1 item (running q) @ [w]"
    unfolding eq by (subst processNext_admits_one(3)[OF c(2) c(1) c(3)]) (simp add: updateStats_def)
  show "timers (resumeComplete (pipelineRejected item q)) =
       timers q @ [item\<lparr>retryCount := retryCount item + 1\<rparr>]"
    unfolding eq using c
    by (simp add: processNext_def startProcessing_def updateStats_def)
  show "resumptions (pipelineRejected item q) = resumptions q + 1"
    using assms(5) by (simp add: pipelineRejected_def retryTeam_def Let_def)
qed

lemma addTeam_noop:
  "tid \<in> processingPool q \<or> tid \<in> set (waitingTeams q) \<Longrightarrow> addTeam now tid q = q"
  by (auto simp: addTeam_def waitingTeams_def find_None_iff)

lemma addTeam_present:
  "tid \<in> processingPool (addTeam now tid q) \<or> tid \<in> set (waitingTeams (addTeam now tid q))"
  by (auto simp: addTeam_def waitingTeams_def find_None_iff Let_def startProcessing_def
      updateStats_def)

lemma addTeam_starts_at_most_one:
  "count_list (runningTeams (addTeam now tid q)) t \<le> count_list (runningTeams q) t + 1"
  "count_list (waitingTeams (addTeam now tid q)) t \<le> count_list (waitingTeams q) t + 1"
  by (auto simp: addTeam_def waitingTeams_def runningTeams_def Let_def startProcessing_def
      updateStats_def)

text \<open>
  C4. In every state the queue reaches from the new queue, by any sequence of
  \<open>addTeam\<close> calls, pipeline completions (resolved or rejected), resumed completions,
  retry timers, \<open>forceRetryTeam\<close> and \<open>clearQueue\<close>, the processing pool holds at most
  \<open>MAX_CONCURRENT = 3\<close> team ids. Five distinct teams added to the new queue: the first
  three are started at once and the last two wait; and when the pipeline of any of the
  three settles (it resolves, or it rejects and the completion handler resumes), the
  first waiting team, and only it, is started in the freed slot.
\<close>

theorem processing_pool_bounded:
  "(run es newQueue = Some q \<longrightarrow> card (processingPool q) \<le> MAX_CONCURRENT) \<and>
   MAX_CONCURRENT = 3 \<and>
   (distinct [t1, t2, t3, t4, t5] \<longrightarrow>
     (\<exists>q5. run [AddTeam n1 t1, AddTeam n2 t2, AddTeam n3 t3, AddTeam n4 t4, AddTeam n5 t5]
              newQueue = Some q5 \<and>
           queueView q5 = ({t1, t2, t3}, [t4, t5], [t1, t2, t3]) \<and>
           card (processingPool q5) = 3 \<and>
           (\<forall>item \<in> set (running q5).
              (\<exists>q6. step (Resolved item) q5 = Some q6 \<and>
                 queueView q6 = (insert t4 ({t1, t2, t3} - {teamId item}), [t5],
                                 remove1 (teamId item) [t1, t2, t3] @ [t4]) \<and>
                 card (processingPool q6) = 3) \<and>
              (\<exists>q7. run [Rejected item, Resume] q5 = Some q7 \<and>
                 queueView q7 = (insert t4 ({t1, t2, t3} - {teamId item}), [t5],
                                 remove1 (teamId item) [t1, t2, t3] @ [t4]) \<and>
                 card (processingPool q7) = 3))))"
proof (intro conjI impI)
  assume "run es newQueue = Some q"
  then have "poolInv q" by (rule poolInv_run) (rule poolInv_newQueue)
  then show "card (processingPool q) \<le> MAX_CONCURRENT" by (simp add: poolInv_def)
next
  show "MAX_CONCURRENT = 3" by (simp add: MAX_CONCURRENT_def)
next
  assume d: "distinct [t1, t2, t3, t4, t5]"
  define q5 where "q5 = \<lparr>processingPool = {t3, t2, t1},
     waitingQueue =
       [\<lparr>teamId = t4, completedAt = n4, retryCount = 0, addedToQueueAt = n4\<rparr>,
        \<lparr>teamId = t5, completedAt = n5, retryCount = 0, addedToQueueAt = n5\<rparr>],
     stats = \<lparr>processing = 3, waiting = 2, totalProcessed = 0, totalFailed = 0\<rparr>,
     running =
       [\<lparr>teamId = t1, completedAt = n1, retryCount = 0, addedToQueueAt = n1\<rparr>,
        \<lparr>teamId = t2, completedAt = n2, retryCount = 0, addedToQueueAt = n2\<rparr>,
        \<lparr>teamId = t3, completedAt = n3, retryCount = 0, addedToQueueAt = n3\<rparr>],
     timers = [], resumptions = 0\<rparr>"
  have run5: "run [AddTeam n1 t1, AddTeam n2 t2, AddTeam n3 t3, AddTeam n4 t4, AddTeam n5 t5]
              newQueue = Some q5"
    unfolding q5_def by (rule five_teams [OF d])
  have pool: "processingPool q5 = {t1, t2, t3}" by (auto simp: q5_def)
  have fin: "finite (processingPool q5)" by (simp add: q5_def)
  have d': "t1 \<noteq> t2" "t1 \<noteq> t3" "t2 \<noteq> t3" "t2 \<noteq> t1" "t3 \<noteq> t1" "t3 \<noteq> t2"
    using d by auto
  have card3: "card (processingPool q5) = 3" by (simp add: q5_def d')
  have cardM: "card (processingPool q5) = MAX_CONCURRENT" using card3 by (simp add: MAX_CONCURRENT_def)
  have wq: "waitingQueue q5 =
      \<lparr>teamId = t4, completedAt = n4, retryCount = 0, addedToQueueAt = n4\<rparr> #
      [\<lparr>teamId = t5, completedAt = n5, retryCount = 0, addedToQueueAt = n5\<rparr>]"
    by (simp add: q5_def)
  have view5: "queueView q5 = ({t1, t2, t3}, [t4, t5], [t1, t2, t3])"
    by (auto simp: queueView_def q5_def waitingTeams_def runningTeams_def)
  have t4_new: "t4 \<notin> {t1, t2, t3}" using d by auto
  have each: "(\<exists>q6. step (Resolved item) q5 = Some q6 \<and>
                 queueView q6 = (insert t4 ({t1, t2, t3} - {teamId item}), [t5],
                                 remove1 (teamId item) [t1, t2, t3] @ [t4]) \<and>
                 card (processingPool q6) = 3) \<and>
              (\<exists>q7. run [Rejected item, Resume] q5 = Some q7 \<and>
                 queueView q7 = (insert t4 ({t1, t2, t3} - {teamId item}), [t5],
                                 remove1 (teamId item) [t1, t2, t3] @ [t4]) \<and>
                 card (processingPool q7) = 3)"
    if item: "item \<in> set (running q5)" for item
  proof -
    have inpool: "teamId item \<in> processingPool q5" using item by (auto simp: q5_def)
    have rc: "retryCount item < MAX_RETRIES" using item by (auto simp: q5_def MAX_RETRIES_def)
    have rem: "map teamId (remove1 item (running q5)) = remove1 (teamId item) [t1, t2, t3]"
      using item d by (auto simp: q5_def)
    have cardnew: "card (insert t4 ({t1, t2, t3} - {teamId item})) = 3"
      using inpool d by (auto simp: q5_def)
    note R = pipelineResolved_admits_one [OF fin cardM inpool wq]
    note J = pipelineRejected_then_resume_admits_one [OF fin cardM inpool wq rc]
    have a: "step (Resolved item) q5 = Some (pipelineResolved item q5)" using item by simp
    have b: "queueView (pipelineResolved item q5) =
        (insert t4 ({t1, t2, t3} - {teamId item}), [t5],
         remove1 (teamId item) [t1, t2, t3] @ [t4])"
      by (simp add: queueView_def R waitingTeams_def runningTeams_def rem pool)
    have c: "card (processingPool (pipelineResolved item q5)) = 3"
      by (simp add: R pool cardnew)
    have a': "run [Rejected item, Resume] q5 = Some (resumeComplete (pipelineRejected item q5))"
      using item J(5) by simp
    have b': "queueView (resumeComplete (pipelineRejected item q5)) =
        (insert t4 ({t1, t2, t3} - {teamId item}), [t5],
         remove1 (teamId item) [t1, t2, t3] @ [t4])"
      by (simp add: queueView_def J waitingTeams_def runningTeams_def rem pool)
    have c': "card (processingPool (resumeComplete (pipelineRejected item q5))) = 3"
      by (simp add: J pool cardnew)
    from a b c a' b' c' show ?thesis by blast
  qed
  from run5 view5 card3 each
  show "\<exists>q5. run [AddTeam n1 t1, AddTeam n2 t2, AddTeam n3 t3, AddTeam n4 t4, AddTeam n5 t5]
              newQueue = Some q5 \<and>
           queueView q5 = ({t1, t2, t3}, [t4, t5], [t1, t2, t3]) \<and>
           card (processingPool q5) = 3 \<and>
           (\<forall>item \<in> set (running q5).
              (\<exists>q6. step (Resolved item) q5 = Some q6 \<and>
                 queueView q6 = (insert t4 ({t1, t2, t3} - {teamId item}), [t5],
                                 remove1 (teamId item) [t1, t2, t3] @ [t4]) \<and>
                 card (processingPool q6) = 3) \<and>
              (\<exists>q7. run [Rejected item, Resume] q5 = Some q7 \<and>
                 queueView q7 = (insert t4 ({t1, t2, t3} - {teamId item}), [t5],
                                 remove1 (teamId item) [t1, t2, t3] @ [t4]) \<and>
                 card (processingPool q7) = 3))"
    by blast
qed

theorem processing_pool_bounded_witness:
  "run [AddTeam 1 (ascii ''A''), AddTeam 2 (ascii ''B''), AddTeam 3 (ascii ''C''),
        AddTeam 4 (ascii ''D''),
        Resolved \<lparr>teamId = ascii ''A'', completedAt = 1, retryCount = 0, addedToQueueAt = 1\<rparr>]
     newQueue \<noteq> None \<and>
   card (processingPool (the (run [AddTeam 1 (ascii ''A''), AddTeam 2 (ascii ''B''),
        AddTeam 3 (ascii ''C''), AddTeam 4 (ascii ''D''),
        Resolved \<lparr>teamId = ascii ''A'', completedAt = 1, retryCount = 0, addedToQueueAt = 1\<rparr>]
     newQueue))) \<le> 3 \<and>
   distinct [ascii ''A'', ascii ''B'', ascii ''C'', ascii ''D'', ascii ''E''] \<and>
   (\<exists>q5. run [AddTeam 1 (ascii ''A''), AddTeam 2 (ascii ''B''), AddTeam 3 (ascii ''C''),
              AddTeam 4 (ascii ''D''), AddTeam 5 (ascii ''E'')] newQueue = Some q5 \<and>
      queueView q5 = ({ascii ''A'', ascii ''B'', ascii ''C''}, [ascii ''D'', ascii ''E''],
                      [ascii ''A'', ascii ''B'', ascii ''C'']))"
proof -
  let ?es = "[AddTeam 1 (ascii ''A''), AddTeam 2 (ascii ''B''), AddTeam 3 (ascii ''C''),
        AddTeam 4 (ascii ''D''),
        Resolved \<lparr>teamId = ascii ''A'', completedAt = 1, retryCount = 0, addedToQueueAt = 1\<rparr>]"
  have r: "run ?es newQueue \<noteq> None"
    by (simp add: ascii_simps addTeam_def newQueue_def
      startProcessing_def updateStats_def MAX_CONCURRENT_def Let_def
      pipelineResolved_def processNext_def insert_commute)
  then obtain q where q: "run ?es newQueue = Some q" by blast
  have d: "distinct [ascii ''A'', ascii ''B'', ascii ''C'', ascii ''D'', ascii ''E'']"
    by (simp add: ascii_simps)
  note T = processing_pool_bounded [of ?es q "ascii ''A''" "ascii ''B''" "ascii ''C''"
      "ascii ''D''" "ascii ''E''" 1 2 3 4 5]
  from T q have "card (processingPool q) \<le> MAX_CONCURRENT" by blast
  moreover from T have "MAX_CONCURRENT = 3" by blast
  moreover from T d have "\<exists>q5. run [AddTeam 1 (ascii ''A''), AddTeam 2 (ascii ''B''),
       AddTeam 3 (ascii ''C''), AddTeam 4 (ascii ''D''), AddTeam 5 (ascii ''E'')] newQueue = Some q5 \<and>
      queueView q5 = ({ascii ''A'', ascii ''B'', ascii ''C''}, [ascii ''D'', ascii ''E''],
                      [ascii ''A'', ascii ''B'', ascii ''C''])" by blast
  ultimately show ?thesis using r d q by simp
qed

text \<open>
  C5. \<open>addTeam(teamId)\<close> for a team that is in the processing pool or in the waiting
  list changes nothing: no state, no pipeline started, no queue entry. So a second
  \<open>addTeam\<close> right after a first one is without effect, and the two calls together start
  at most one pipeline for the team and add at most one waiting entry.
\<close>

theorem addTeam_idempotent:
  "(tid \<in> processingPool q \<or> tid \<in> set (waitingTeams q) \<longrightarrow> addTeam now tid q = q) \<and>
   addTeam now' tid (addTeam now tid q) = addTeam now tid q \<and>
   count_list (runningTeams (addTeam now' tid (addTeam now tid q))) tid
     \<le> count_list (runningTeams q) tid + 1 \<and>
   count_list (waitingTeams (addTeam now' tid (addTeam now tid q))) tid
     \<le> count_list (waitingTeams q) tid + 1"
proof (intro conjI impI)
  assume "tid \<in> processingPool q \<or> tid \<in> set (waitingTeams q)"
  then show "addTeam now tid q = q" by (rule addTeam_noop)
next
  show twice: "addTeam now' tid (addTeam now tid q) = addTeam now tid q"
    by (rule addTeam_noop) (rule addTeam_present)
  show "count_list (runningTeams (addTeam now' tid (addTeam now tid q))) tid
     \<le> count_list (runningTeams q) tid + 1"
    unfolding twice by (rule addTeam_starts_at_most_one)
  show "count_list (waitingTeams (addTeam now' tid (addTeam now tid q))) tid
     \<le> count_list (waitingTeams q) tid + 1"
    unfolding twice by (rule addTeam_starts_at_most_one)
qed

theorem addTeam_idempotent_witness:
  "ascii ''team-1'' \<in> processingPool (addTeam 5 (ascii ''team-1'') newQueue) \<and>
   addTeam 9 (ascii ''team-1'') (addTeam 5 (ascii ''team-1'') newQueue)
     = addTeam 5 (ascii ''team-1'') newQueue \<and>
   runningTeams (addTeam 9 (ascii ''team-1'') (addTeam 5 (ascii ''team-1'') newQueue))
     = [ascii ''team-1'']"
proof -
  have m: "ascii ''team-1'' \<in> processingPool (addTeam 5 (ascii ''team-1'') newQueue)"
    by (simp add: addTeam_def newQueue_def startProcessing_def updateStats_def
        MAX_CONCURRENT_def Let_def)
  have r: "runningTeams (addTeam 5 (ascii ''team-1'') newQueue) = [ascii ''team-1'']"
    by (simp add: addTeam_def newQueue_def startProcessing_def updateStats_def
        MAX_CONCURRENT_def Let_def runningTeams_def)
  from m addTeam_idempotent [of "ascii ''team-1''" "addTeam 5 (ascii ''team-1'') newQueue" 9 9]
  have "addTeam 9 (ascii ''team-1'') (addTeam 5 (ascii ''team-1'') newQueue)
     = addTeam 5 (ascii ''team-1'') newQueue" by blast
  with m r show ?thesis by simp
qed

text \<open>
  C10 (fails on the code). A team whose pipeline failed sits in neither the pool nor the
  waiting list while its retry timer runs, so \<open>addTeam\<close> accepts it again; the timer
  callback then puts the old item at the head of the waiting list without looking at
  either. Three runs from the new queue: team A is in the pool and in the waiting list
  at once; two pipelines of team A are running at once; team A is twice in the waiting
  list.
\<close>

theorem retry_reinsertion_duplicates_team:
  "map_option queueView
     (run [AddTeam 0 (ascii ''A''),
           Rejected \<lparr>teamId = ascii ''A'', completedAt = 0, retryCount = 0, addedToQueueAt = 0\<rparr>,
           Resume,
           AddTeam 1 (ascii ''A''), AddTeam 2 (ascii ''B''), AddTeam 3 (ascii ''C''),
           TimerFired \<lparr>teamId = ascii ''A'', completedAt = 0, retryCount = 1, addedToQueueAt = 0\<rparr>]
        newQueue)
     = Some ({ascii ''A'', ascii ''B'', ascii ''C''}, [ascii ''A''],
             [ascii ''A'', ascii ''B'', ascii ''C'']) \<and>
   map_option queueView
     (run [AddTeam 0 (ascii ''A''),
           Rejected \<lparr>teamId = ascii ''A'', completedAt = 0, retryCount = 0, addedToQueueAt = 0\<rparr>,
           Resume,
           AddTeam 1 (ascii ''A''),
           TimerFired \<lparr>teamId = ascii ''A'', completedAt = 0, retryCount = 1, addedToQueueAt = 0\<rparr>]
        newQueue)
     = Some ({ascii ''A''}, [], [ascii ''A'', ascii ''A'']) \<and>
   map_option queueView
     (run [AddTeam 0 (ascii ''A''),
           Rejected \<lparr>teamId = ascii ''A'', completedAt = 0, retryCount = 0, addedToQueueAt = 0\<rparr>,
           Resume,
           AddTeam 1 (ascii ''A''),
           Rejected \<lparr>teamId = ascii ''A'', completedAt = 1, retryCount = 0, addedToQueueAt = 1\<rparr>,
           Resume,
           AddTeam 2 (ascii ''B''), AddTeam 3 (ascii ''C''), AddTeam 4 (ascii ''D''),
           TimerFired \<lparr>teamId = ascii ''A'', completedAt = 0, retryCount = 1, addedToQueueAt = 0\<rparr>,
           TimerFired \<lparr>teamId = ascii ''A'', completedAt = 1, retryCount = 1, addedToQueueAt = 1\<rparr>]
        newQueue)
     = Some ({ascii ''B'', ascii ''C'', ascii ''D''}, [ascii ''A'', ascii ''A''],
             [ascii ''B'', ascii ''C'', ascii ''D''])"
  by (simp add: ascii_simps queueView_def waitingTeams_def runningTeams_def addTeam_def newQueue_def
      startProcessing_def updateStats_def MAX_CONCURRENT_def MAX_RETRIES_def Let_def
      pipelineRejected_def retryTeam_def resumeComplete_def processNext_def retryTimerFired_def
      insert_commute)

section \<open>Assigner\<close>

lemma addScores_Cons:
  "addScores t (x # xs) = addScores (js_plus t (Finite x)) xs"
  by (simp add: addScores_def)

lemma buildAssignments_inBounds:
  "inBounds (length (applicants team)) (length rs) pairs \<Longrightarrow>
   buildAssignments team rs m pairs acc tot =
     Inr (acc @ assignmentsOf team rs m pairs,
          addScores tot (map score (assignmentsOf team rs m pairs)))"
proof (induction pairs arbitrary: acc tot)
  case Nil
  then show ?case by (simp add: assignmentsOf_def addScores_def)
next
  case (Cons p pairs)
  obtain ai ri where p: "p = (ai, ri)" by (cases p)
  from Cons.prems have b: "0 \<le> ai" "ai < int (length (applicants team))" "0 \<le> ri"
    "ri < int (length rs)" and rest: "inBounds (length (applicants team)) (length rs) pairs"
    by (simp_all add: inBounds_def p)
  show ?case
    using b Cons.IH [OF rest]
    by (simp add: p Let_def assignmentsOf_def addScores_Cons)
qed

lemma buildAssignments_outOfBounds:
  "\<not> inBounds (length (applicants team)) (length rs) pairs \<Longrightarrow>
   \<exists>ai ri. buildAssignments team rs m pairs acc tot = Inl (InvalidIndices ai ri)"
proof (induction pairs arbitrary: acc tot)
  case Nil
  then show ?case by (simp add: inBounds_def)
next
  case (Cons p pairs)
  obtain ai ri where p: "p = (ai, ri)" by (cases p)
  show ?case
  proof (cases "0 \<le> ai \<and> ai < int (length (applicants team)) \<and> 0 \<le> ri \<and> ri < int (length rs)")
    case True
    with Cons.prems have "\<not> inBounds (length (applicants team)) (length rs) pairs"
      by (simp add: inBounds_def p)
    from Cons.IH [OF this] True show ?thesis by (simp add: p Let_def)
  next
    case False
    then show ?thesis by (auto simp: p)
  qed
qed

lemma assignRoles_Inr_iff:
  "assignRoles munkres now team rs sm = Inr ta \<longleftrightarrow>
     isComplete team \<and> length (applicants team) \<le> length rs \<and>
     length (scores sm) = length (applicants team) \<and>
     list_all (\<lambda>row. length row = length rs) (scores sm) \<and>
     (\<exists>pairs. munkres (costMatrix (scores sm)) = Pairs pairs \<and>
        length pairs = length (applicants team) \<and>
        inBounds (length (applicants team)) (length rs) pairs \<and>
        card (set (map applicantId (assignmentsOf team rs (scores sm) pairs)))
          = length (applicants team) \<and>
        card (set (map roleId (assignmentsOf team rs (scores sm) pairs)))
          = length (applicants team) \<and>
        ta = \<lparr>ta_teamId = t_id team,
              assignments = assignmentsOf team rs (scores sm) pairs,
              totalScore =
                addScores (Finite 0) (map score (assignmentsOf team rs (scores sm) pairs)),
              ta_generatedAt = now, justificationsGenerated = False\<rparr>)"
proof (cases "munkres (costMatrix (scores sm))")
  case (Pairs pairs)
  show ?thesis
  proof (cases "inBounds (length (applicants team)) (length rs) pairs")
    case True
    show ?thesis
      using Pairs True
      by (auto simp: assignRoles_def Let_def buildAssignments_inBounds)
  next
    case False
    from buildAssignments_outOfBounds [OF False, of "scores sm" "[]" "Finite 0"]
    obtain ai ri where
      "buildAssignments team rs (scores sm) pairs [] (Finite 0) = Inl (InvalidIndices ai ri)"
      by blast
    then show ?thesis
      using Pairs False by (auto simp: assignRoles_def Let_def)
  qed
next
  case NoResult
  then show ?thesis by (auto simp: assignRoles_def Let_def)
next
  case (Throws msg)
  then show ?thesis by (auto simp: assignRoles_def Let_def)
qed


lemma distinct_map_fst_of_comp:
  "distinct (map (\<lambda>p. f (g p)) xs) \<Longrightarrow> distinct (map g xs)"
  by (induction xs) (auto simp: image_iff)

lemma length_assignmentsOf [simp]: "length (assignmentsOf team rs m pairs) = length pairs"
  by (simp add: assignmentsOf_def)

lemma applicantIds_assignmentsOf:
  "map applicantId (assignmentsOf team rs m pairs) =
     map (\<lambda>p. a_id (applicants team ! nat (fst p))) pairs"
  by (simp add: assignmentsOf_def case_prod_beta)

lemma roleIds_assignmentsOf:
  "map roleId (assignmentsOf team rs m pairs) = map (\<lambda>p. r_id (rs ! nat (snd p))) pairs"
  by (simp add: assignmentsOf_def case_prod_beta)

lemma card_set_eq_length_iff: "card (set xs) = length xs \<longleftrightarrow> distinct xs"
  using card_distinct distinct_card by metis

lemma pairsSum_exactCosts:
  assumes "inBounds (length m) k pairs" "list_all (\<lambda>row. length row = k) m"
  shows "pairsSum (exactCosts m) pairs = 100 * of_nat (length pairs) - pairsSum m pairs"
  using assms(1)
proof (induction pairs)
  case Nil
  then show ?case by (simp add: pairsSum_def)
next
  case (Cons p pairs)
  obtain ai ri where p: "p = (ai, ri)" by (cases p)
  from Cons.prems have b: "nat ai < length m" "0 \<le> ri" "ri < int k"
    and rest: "inBounds (length m) k pairs"
    by (auto simp: inBounds_def p)
  have "length (m ! nat ai) = k" using assms(2) b(1) by (simp add: list_all_length)
  then have "nat ri < length (m ! nat ai)" using b by auto
  then have "exactCosts m ! nat ai ! nat ri = 100 - m ! nat ai ! nat ri"
    using b(1) by (simp add: exactCosts_def)
  with Cons.IH [OF rest] show ?case
    by (simp add: pairsSum_def p algebra_simps)
qed

lemma chosenSum_exactCosts:
  assumes "one_to_one (length m) k cs" "list_all (\<lambda>row. length row = k) m"
  shows "chosenSum (exactCosts m) cs = 100 * of_nat (length m) - chosenSum m cs"
proof -
  have len: "length cs = length m" and lt: "\<And>i. i < length m \<Longrightarrow> cs ! i < k"
    using assms(1) by (auto simp: one_to_one_def)
  have "exactCosts m ! i ! (cs ! i) = 100 - m ! i ! (cs ! i)" if "i < length m" for i
  proof -
    have "length (m ! i) = k" using assms(2) that by (simp add: list_all_length)
    with lt [OF that] that show ?thesis by (simp add: exactCosts_def)
  qed
  then have "chosenSum (exactCosts m) cs = (\<Sum>i < length m. 100 - m ! i ! (cs ! i))"
    by (simp add: chosenSum_def len)
  also have "\<dots> = 100 * of_nat (length m) - chosenSum m cs"
    by (simp add: chosenSum_def len sum_subtractf)
  finally show ?thesis .
qed

lemma floor_grid_Ints: "of_int \<lfloor>y\<rfloor> = (y :: rat) \<Longrightarrow> y \<in> \<int>"
  by (metis Ints_of_int)

lemma grid_bound: "100 * 2 ^ k < (2 :: rat) ^ 53 \<Longrightarrow> k \<le> 1074"
proof -
  assume a: "100 * 2 ^ k < (2 :: rat) ^ 53"
  have "(2 :: rat) ^ k \<le> 100 * 2 ^ k" by simp
  with a have "(2 :: rat) ^ k < 2 ^ 53" by linarith
  then have "k < 53" using power_less_imp_less_exp [of "2 :: rat" k 53] by simp
  then show ?thesis by simp
qed

lemma js_minus_exact:
  assumes "0 \<le> s" "s \<le> 100" "of_int \<lfloor>s * 2 ^ k\<rfloor> = s * 2 ^ k"
    and "100 * 2 ^ k < (2 :: rat) ^ 53"
  shows "js_minus (Finite 100) (Finite s) = Finite (100 - s)"
proof -
  have "s * 2 ^ k \<in> \<int>" using assms(3) by (rule floor_grid_Ints)
  moreover have "(100 :: rat) * 2 ^ k \<in> \<int>" by (intro Ints_mult Ints_power) simp_all
  ultimately have "100 * 2 ^ k - s * 2 ^ k \<in> \<int>" by (intro Ints_diff)
  then have g: "(100 - s) * 2 ^ k \<in> \<int>" by (simp only: left_diff_distrib)
  have "\<bar>100 - s\<bar> \<le> 100" using assms(1,2) by simp
  then have "\<bar>100 - s\<bar> * 2 ^ k \<le> 100 * 2 ^ k" by (intro mult_right_mono) simp_all
  with assms(4) have b: "\<bar>100 - s\<bar> * 2 ^ k < 2 ^ 53" by linarith
  have "roundToDouble (100 - s) = Finite (100 - s)"
    using g b grid_bound [OF assms(4)] by (rule roundToDouble_exact)
  then show ?thesis by (simp add: js_minus_def)
qed

lemma costMatrix_exact:
  assumes "dyadicScores k m" "m \<noteq> [] \<longrightarrow> 100 * 2 ^ k < (2 :: rat) ^ 53"
  shows "costMatrix m = map (map Finite) (exactCosts m)"
proof -
  have "js_minus (Finite 100) (Finite s) = Finite (100 - s)"
    if "row \<in> set m" "s \<in> set row" for row s
  proof -
    from that(1) have "m \<noteq> []" by auto
    with assms(2) have b: "100 * 2 ^ k < (2 :: rat) ^ 53" by blast
    from assms(1) that
    have "0 \<le> s \<and> s \<le> 100 \<and> of_int \<lfloor>s * 2 ^ k\<rfloor> = s * 2 ^ k"
      unfolding dyadicScores_def list_all_iff by blast
    then have "0 \<le> s" "s \<le> 100" "of_int \<lfloor>s * 2 ^ k\<rfloor> = s * 2 ^ k" by blast+
    then show ?thesis using b by (rule js_minus_exact)
  qed
  then show ?thesis by (simp add: costMatrix_def exactCosts_def)
qed

lemma addScores_exact:
  assumes "list_all (\<lambda>s. 0 \<le> s \<and> s \<le> 100 \<and> of_int \<lfloor>s * 2 ^ k\<rfloor> = s * 2 ^ k) xs"
    and "0 \<le> t" "t * 2 ^ k \<in> \<int>"
    and "(t + 100 * of_nat (length xs)) * 2 ^ k < 2 ^ 53" "k \<le> 1074"
  shows "addScores (Finite t) xs = Finite (t + sum_list xs)"
  using assms(1-4)
proof (induction xs arbitrary: t)
  case Nil
  then show ?case by (simp add: addScores_def)
next
  case (Cons x xs)
  from Cons.prems(1) have x: "0 \<le> x" "x \<le> 100" "of_int \<lfloor>x * 2 ^ k\<rfloor> = x * 2 ^ k"
    and rest: "list_all (\<lambda>s. 0 \<le> s \<and> s \<le> 100 \<and> of_int \<lfloor>s * 2 ^ k\<rfloor> = s * 2 ^ k) xs"
    by simp_all
  have "x * 2 ^ k \<in> \<int>" using x(3) by (rule floor_grid_Ints)
  with Cons.prems(3) have "t * 2 ^ k + x * 2 ^ k \<in> \<int>" by (rule Ints_add)
  then have g: "(t + x) * 2 ^ k \<in> \<int>" by (simp add: algebra_simps)
  have le: "t + x + 100 * of_nat (length xs) \<le> t + 100 * of_nat (length (x # xs))"
    using x(2) by simp
  then have "(t + x + 100 * of_nat (length xs)) * 2 ^ k
      \<le> (t + 100 * of_nat (length (x # xs))) * 2 ^ k"
    by (intro mult_right_mono) simp_all
  with Cons.prems(4) have b1: "(t + x + 100 * of_nat (length xs)) * 2 ^ k < 2 ^ 53"
    by linarith
  have "t + x \<le> t + x + 100 * of_nat (length xs)" by simp
  then have "(t + x) * 2 ^ k \<le> (t + x + 100 * of_nat (length xs)) * 2 ^ k"
    by (intro mult_right_mono) simp_all
  with b1 have "(t + x) * 2 ^ k < 2 ^ 53" by linarith
  moreover have "\<bar>t + x\<bar> = t + x" using Cons.prems(2) x(1) by simp
  ultimately have b: "\<bar>t + x\<bar> * 2 ^ k < 2 ^ 53" by simp
  have r: "roundToDouble (t + x) = Finite (t + x)"
    using g b assms(5) by (rule roundToDouble_exact)
  have "0 \<le> t + x" using Cons.prems(2) x(1) by simp
  from Cons.IH [OF rest this g b1]
  have "addScores (Finite (t + x)) xs = Finite (t + x + sum_list xs)" .
  then show ?case by (simp add: addScores_Cons r algebra_simps)
qed

lemma map_map_Finite_eq: "map (map Finite) c = map (map Finite) d \<Longrightarrow> c = d"
proof -
  have "inj (map (map Finite))" by (intro inj_mapI) (simp add: inj_on_def)
  then show "map (map Finite) c = map (map Finite) d \<Longrightarrow> c = d" by (simp add: inj_eq)
qed

lemma roundToDouble_90: "roundToDouble 90 = Finite 90"
  by (rule roundToDouble_exact [where k = 0]) simp_all

lemma roundToDouble_180: "roundToDouble 180 = Finite 180"
  by (rule roundToDouble_exact [where k = 0]) simp_all

lemma upt_10: "[0 ..< 10] = [0, 1, 2, 3, 4, 5, 6, 7, 8, 9]"
  by (simp add: upt_rec)

lemma scenario1_roles_eq:
  "scenario1_roles =
    [\<lparr>r_id = ascii ''role0'', r_name = ascii ''Role #0''\<rparr>,
     \<lparr>r_id = ascii ''role1'', r_name = ascii ''Role #1''\<rparr>,
     \<lparr>r_id = ascii ''role2'', r_name = ascii ''Role #2''\<rparr>,
     \<lparr>r_id = ascii ''role3'', r_name = ascii ''Role #3''\<rparr>,
     \<lparr>r_id = ascii ''role4'', r_name = ascii ''Role #4''\<rparr>,
     \<lparr>r_id = ascii ''role5'', r_name = ascii ''Role #5''\<rparr>,
     \<lparr>r_id = ascii ''role6'', r_name = ascii ''Role #6''\<rparr>,
     \<lparr>r_id = ascii ''role7'', r_name = ascii ''Role #7''\<rparr>,
     \<lparr>r_id = ascii ''role8'', r_name = ascii ''Role #8''\<rparr>,
     \<lparr>r_id = ascii ''role9'', r_name = ascii ''Role #9''\<rparr>]"
  by (simp add: scenario1_roles_def upt_10 decimal.simps ascii_def)

lemma scenario1_assignRoles:
  "assignRoles scenario1_munkres 7 scenario1_team scenario1_roles scenario1_scores
     = Inr scenario1_assignment"
  by (simp add: assignRoles_def scenario1_munkres_def scenario1_team_def scenario1_roles_eq
      scenario1_scores_def scenario1_assignment_def Let_def ascii_def roundToDouble_90
      roundToDouble_180)

lemma scenario1_dyadic: "dyadicScores 0 (scores scenario1_scores)"
  by (simp add: dyadicScores_def scenario1_scores_def)

lemma scenario1_costMatrix:
  "costMatrix (scores scenario1_scores) =
     map (map Finite) [[10, 90, 90, 90, 90, 90, 90, 90, 90, 90],
                       [90, 10, 90, 90, 90, 90, 90, 90, 90, 90]]"
proof -
  have "costMatrix (scores scenario1_scores)
      = map (map Finite) (exactCosts (scores scenario1_scores))"
    using scenario1_dyadic by (rule costMatrix_exact) simp
  then show ?thesis by (simp add: exactCosts_def scenario1_scores_def)
qed

lemma scenario1_munkresMinimizes:
  "munkresMinimizes scenario1_munkres (costMatrix (scores scenario1_scores)) 2 10"
  unfolding munkresMinimizes_def
proof (intro exI conjI allI impI)
  let ?c = "[[10, 90, 90, 90, 90, 90, 90, 90, 90, 90],
             [90, 10, 90, 90, 90, 90, 90, 90, 90, 90]] :: rat list list"
  show "costMatrix (scores scenario1_scores) = map (map Finite) ?c"
    by (rule scenario1_costMatrix)
  fix pairs cs
  assume m: "scenario1_munkres (costMatrix (scores scenario1_scores)) = Pairs pairs"
    and o: "one_to_one 2 10 cs"
  have pairs: "pairs = [(0, 0), (1, 1)]" using m by (simp add: scenario1_munkres_def)
  have lhs: "pairsSum ?c pairs = 20" by (simp add: pairs pairsSum_def)
  from o obtain x y where cs: "cs = [x, y]" "x < 10" "y < 10"
    by (auto simp: one_to_one_def length_Suc_conv numeral_2_eq_2)
  have row: "list_all (\<lambda>v. 10 \<le> v) (?c ! 0)" "list_all (\<lambda>v. 10 \<le> v) (?c ! 1)"
    by simp_all
  have h: "10 \<le> ?c ! 0 ! x" "10 \<le> ?c ! Suc 0 ! y"
    using row cs(2,3) by (simp_all add: list_all_length)
  have "chosenSum ?c cs = ?c ! 0 ! x + ?c ! Suc 0 ! y"
    by (simp add: chosenSum_def cs(1) lessThan_Suc numeral_2_eq_2)
  with h have "20 \<le> chosenSum ?c cs" by linarith
  with lhs show "pairsSum ?c pairs \<le> chosenSum ?c cs" by simp
qed


text \<open>
  C2. When \<open>assignRoles\<close> returns success, the assignment has exactly teamSize pairs,
  its applicant ids are teamSize different ids and its role ids are teamSize different
  ids; the pairs come from the matching, every index of which is in bounds, no applicant
  index and no role index occurring twice. And when the matching has a number of pairs
  other than teamSize, an index out of bounds, or pairs that repeat an applicant id or a
  role id, \<open>assignRoles\<close> returns a failure.
\<close>

theorem assignRoles_bijection:
  "(assignRoles munkres now team rs sm = Inr ta \<longrightarrow>
      length (assignments ta) = length (applicants team) \<and>
      card (set (map applicantId (assignments ta))) = length (applicants team) \<and>
      distinct (map applicantId (assignments ta)) \<and>
      card (set (map roleId (assignments ta))) = length (applicants team) \<and>
      distinct (map roleId (assignments ta)) \<and>
      (\<exists>pairs. munkres (costMatrix (scores sm)) = Pairs pairs \<and>
         inBounds (length (applicants team)) (length rs) pairs \<and>
         distinct (map fst pairs) \<and> distinct (map snd pairs) \<and>
         assignments ta = assignmentsOf team rs (scores sm) pairs)) \<and>
   (munkres (costMatrix (scores sm)) = Pairs pairs \<and>
    (length pairs \<noteq> length (applicants team) \<or>
     \<not> inBounds (length (applicants team)) (length rs) pairs \<or>
     \<not> distinct (map applicantId (assignmentsOf team rs (scores sm) pairs)) \<or>
     \<not> distinct (map roleId (assignmentsOf team rs (scores sm) pairs))) \<longrightarrow>
      (\<exists>e. assignRoles munkres now team rs sm = Inl e))"
proof (intro conjI impI)
  assume ok: "assignRoles munkres now team rs sm = Inr ta"
  then obtain pairs where p: "munkres (costMatrix (scores sm)) = Pairs pairs"
      "length pairs = length (applicants team)"
      "inBounds (length (applicants team)) (length rs) pairs"
      "card (set (map applicantId (assignmentsOf team rs (scores sm) pairs)))
          = length (applicants team)"
      "card (set (map roleId (assignmentsOf team rs (scores sm) pairs)))
          = length (applicants team)"
      "assignments ta = assignmentsOf team rs (scores sm) pairs"
    unfolding assignRoles_Inr_iff by auto
  show "length (assignments ta) = length (applicants team)" by (simp add: p)
  show "card (set (map applicantId (assignments ta))) = length (applicants team)"
    by (simp only: p)
  show "card (set (map roleId (assignments ta))) = length (applicants team)"
    by (simp only: p)
  have da: "distinct (map applicantId (assignmentsOf team rs (scores sm) pairs))"
    using p(4) p(2) card_set_eq_length_iff [of "map applicantId (assignmentsOf team rs (scores sm) pairs)"]
    by simp
  have dr: "distinct (map roleId (assignmentsOf team rs (scores sm) pairs))"
    using p(5) p(2) card_set_eq_length_iff [of "map roleId (assignmentsOf team rs (scores sm) pairs)"]
    by simp
  show "distinct (map applicantId (assignments ta))" using da by (simp add: p)
  show "distinct (map roleId (assignments ta))" using dr by (simp add: p)
  have "distinct (map fst pairs)"
    using da unfolding applicantIds_assignmentsOf by (rule distinct_map_fst_of_comp)
  moreover have "distinct (map snd pairs)"
    using dr unfolding roleIds_assignmentsOf by (rule distinct_map_fst_of_comp)
  ultimately show "\<exists>pairs. munkres (costMatrix (scores sm)) = Pairs pairs \<and>
         inBounds (length (applicants team)) (length rs) pairs \<and>
         distinct (map fst pairs) \<and> distinct (map snd pairs) \<and>
         assignments ta = assignmentsOf team rs (scores sm) pairs"
    using p by blast
next
  assume v: "munkres (costMatrix (scores sm)) = Pairs pairs \<and>
    (length pairs \<noteq> length (applicants team) \<or>
     \<not> inBounds (length (applicants team)) (length rs) pairs \<or>
     \<not> distinct (map applicantId (assignmentsOf team rs (scores sm) pairs)) \<or>
     \<not> distinct (map roleId (assignmentsOf team rs (scores sm) pairs)))"
  have "assignRoles munkres now team rs sm \<noteq> Inr ta'" for ta'
  proof
    assume "assignRoles munkres now team rs sm = Inr ta'"
    then obtain pairs' where p: "munkres (costMatrix (scores sm)) = Pairs pairs'"
      "length pairs' = length (applicants team)"
      "inBounds (length (applicants team)) (length rs) pairs'"
      "card (set (map applicantId (assignmentsOf team rs (scores sm) pairs')))
          = length (applicants team)"
      "card (set (map roleId (assignmentsOf team rs (scores sm) pairs')))
          = length (applicants team)"
      unfolding assignRoles_Inr_iff by auto
    from p(1) v have e: "pairs' = pairs" by simp
    have "distinct (map applicantId (assignmentsOf team rs (scores sm) pairs))"
      using p(4) p(2) card_set_eq_length_iff [of "map applicantId (assignmentsOf team rs (scores sm) pairs)"]
      by (simp add: e)
    moreover have "distinct (map roleId (assignmentsOf team rs (scores sm) pairs))"
      using p(5) p(2) card_set_eq_length_iff [of "map roleId (assignmentsOf team rs (scores sm) pairs)"]
      by (simp add: e)
    ultimately show False using v p(2,3) by (simp add: e)
  qed
  then show "\<exists>e. assignRoles munkres now team rs sm = Inl e"
    by (cases "assignRoles munkres now team rs sm") auto
qed

theorem assignRoles_bijection_witness:
  "assignRoles scenario1_munkres 7 scenario1_team scenario1_roles scenario1_scores
     = Inr scenario1_assignment \<and>
   length (assignments scenario1_assignment) = 2 \<and>
   card (set (map applicantId (assignments scenario1_assignment))) = 2 \<and>
   card (set (map roleId (assignments scenario1_assignment))) = 2 \<and>
   (\<exists>e. assignRoles (\<lambda>cost. Pairs [(0, 0), (0, 1)]) 7 scenario1_team scenario1_roles
           scenario1_scores = Inl e) \<and>
   (\<exists>e. assignRoles (\<lambda>cost. Pairs [(0, 0), (1, 10)]) 7 scenario1_team scenario1_roles
           scenario1_scores = Inl e) \<and>
   (\<exists>e. assignRoles (\<lambda>cost. Pairs [(0, 0)]) 7 scenario1_team scenario1_roles
           scenario1_scores = Inl e)"
proof -
  have n: "length (applicants scenario1_team) = 2" by (simp add: scenario1_team_def)
  have k: "length scenario1_roles = 10" by (simp add: scenario1_roles_def)
  note ok = scenario1_assignRoles
  from assignRoles_bijection [of scenario1_munkres 7 scenario1_team scenario1_roles
      scenario1_scores scenario1_assignment "[]"] ok
  have a: "length (assignments scenario1_assignment) = 2 \<and>
   card (set (map applicantId (assignments scenario1_assignment))) = 2 \<and>
   card (set (map roleId (assignments scenario1_assignment))) = 2"
    unfolding n by blast
  have dup: "\<not> distinct (map applicantId
      (assignmentsOf scenario1_team scenario1_roles (scores scenario1_scores) [(0, 0), (0, 1)]))"
    by (simp add: assignmentsOf_def)
  have oob: "\<not> inBounds 2 10 [(0, 0), (1, 10)]" by (simp add: inBounds_def)
  have b: "\<exists>e. assignRoles (\<lambda>cost. Pairs [(0, 0), (0, 1)]) 7 scenario1_team scenario1_roles
           scenario1_scores = Inl e"
    using assignRoles_bijection [of "\<lambda>cost. Pairs [(0, 0), (0, 1)]" 7 scenario1_team
        scenario1_roles scenario1_scores scenario1_assignment "[(0, 0), (0, 1)]"] dup
    by blast
  have c: "\<exists>e. assignRoles (\<lambda>cost. Pairs [(0, 0), (1, 10)]) 7 scenario1_team scenario1_roles
           scenario1_scores = Inl e"
    using assignRoles_bijection [of "\<lambda>cost. Pairs [(0, 0), (1, 10)]" 7 scenario1_team
        scenario1_roles scenario1_scores scenario1_assignment "[(0, 0), (1, 10)]"] oob
    unfolding n k by blast
  have d: "\<exists>e. assignRoles (\<lambda>cost. Pairs [(0, 0)]) 7 scenario1_team scenario1_roles
           scenario1_scores = Inl e"
    using assignRoles_bijection [of "\<lambda>cost. Pairs [(0, 0)]" 7 scenario1_team
        scenario1_roles scenario1_scores scenario1_assignment "[(0, 0)]"]
    unfolding n k by simp
  from ok a b c d show ?thesis by blast
qed


lemma tiny_difference: "roundToDouble (100 + - (1 / 2 ^ 60)) = Finite 100"
proof (rule roundToDouble_eq [where e = 6 and n = "100 * 2 ^ 46"])
  show "exponent (100 + - (1 / 2 ^ 60)) = 6"
    by (rule exponent_eq) (simp_all add: pow2_def)
qed (simp_all add: pow2_def)

lemma js_minus_tiny: "js_minus (Finite 100) (Finite (1 / 2 ^ 60)) = Finite 100"
  by (simp only: js_minus_def js_negate.simps js_plus.simps tiny_difference)

lemma roundToDouble_0: "roundToDouble 0 = Finite 0"
  by (rule roundToDouble_exact [where k = 0]) simp_all

lemma roundToDouble_100: "roundToDouble 100 = Finite 100"
  by (rule roundToDouble_exact [where k = 0]) simp_all

lemma js_minus_zero: "js_minus (Finite 100) (Finite 0) = Finite 100"
  by (simp add: js_minus_def roundToDouble_100)

lemma tiny_costMatrix:
  "costMatrix (scores tiny_scores_right) = map (map Finite) [[100, 100], [100, 100]]"
  "costMatrix (scores tiny_scores_left) = map (map Finite) [[100, 100], [100, 100]]"
  by (simp_all only: costMatrix_def tiny_scores_right_def tiny_scores_left_def
      ScoreMatrix.select_convs list.map js_minus_tiny js_minus_zero)

lemma all_equal_costs_minimal:
  assumes "cost = map (map Finite) [[100, 100], [100, 100]]"
    and "\<And>c. munkres c = Pairs pairs" "pairsSum [[100, 100], [100, 100]] pairs = 200"
  shows "munkresMinimizes munkres cost 2 2"
  unfolding munkresMinimizes_def
proof (intro exI conjI allI impI)
  show "cost = map (map Finite) [[100, 100], [100, 100]]" by (rule assms(1))
  fix ps cs
  assume m: "munkres cost = Pairs ps" and o: "one_to_one 2 2 cs"
  from m assms(2) have ps: "ps = pairs" by simp
  from o obtain x y where cs: "cs = [x, y]" "x < 2" "y < 2"
    by (auto simp: one_to_one_def length_Suc_conv numeral_2_eq_2)
  have "x = 0 \<or> x = 1" "y = 0 \<or> y = 1" using cs(2,3) by auto
  then have "[100, 100 :: rat] ! x = 100" "[100, 100 :: rat] ! y = 100" by auto
  then have "chosenSum [[100, 100], [100, 100]] cs = 200"
    by (simp add: chosenSum_def cs(1) lessThan_Suc numeral_2_eq_2)
  with assms(3) show "pairsSum [[100, 100], [100, 100]] ps \<le> chosenSum [[100, 100], [100, 100]] cs"
    by (simp add: ps)
qed


text \<open>
  C3, as the code has it. \<open>assignRoles\<close> turns the matrix into costs, each the double
  nearest to \<open>100 - score[i][j]\<close>, and calls munkres-js on them. When every score is a
  multiple of \<open>2^-k\<close> between 0 and 100 and \<open>teamSize * 100 * 2^k < 2^53\<close> (integer scores,
  for \<open>k = 0\<close>), no subtraction and no addition rounds: each cost is \<open>100 - score[i][j]\<close>,
  the total score of the assignment returned is the sum of the scores of its pairs, and,
  munkres-js returning pairs of minimum total cost for the matrix it is given, that total
  is greater than or equal to the total score of every one-to-one assignment of the
  teamSize applicants to distinct roles.
\<close>

theorem assignRoles_optimal:
  assumes ok: "assignRoles munkres now team rs sm = Inr ta"
    and grid: "dyadicScores k (scores sm)"
    and size: "length (applicants team) * 100 * 2 ^ k < 2 ^ 53"
    and opt: "munkresMinimizes munkres (costMatrix (scores sm)) (length (applicants team))
                (length rs)"
    and cs: "one_to_one (length (applicants team)) (length rs) cs"
  shows "(\<forall>i < length (applicants team). \<forall>j < length rs.
            costMatrix (scores sm) ! i ! j = Finite (100 - scores sm ! i ! j)) \<and>
         (\<exists>pairs. munkres (costMatrix (scores sm)) = Pairs pairs \<and>
            totalScore ta = Finite (pairsSum (scores sm) pairs)) \<and>
         totalScore ta = Finite (sum_list (map score (assignments ta))) \<and>
         (\<exists>t. totalScore ta = Finite t \<and> chosenSum (scores sm) cs \<le> t)"
proof -
  let ?n = "length (applicants team)"
  from ok obtain pairs where p: "munkres (costMatrix (scores sm)) = Pairs pairs"
      "length pairs = ?n"
      "inBounds ?n (length rs) pairs"
      "totalScore ta
         = addScores (Finite 0) (map score (assignmentsOf team rs (scores sm) pairs))"
      "assignments ta = assignmentsOf team rs (scores sm) pairs"
    and shape: "length (scores sm) = ?n"
      "list_all (\<lambda>row. length row = length rs) (scores sm)"
    unfolding assignRoles_Inr_iff by auto
  have sizeR: "of_nat ?n * 100 * 2 ^ k < (2 :: rat) ^ 53"
  proof -
    from size have "of_nat (?n * 100 * 2 ^ k) < (of_nat (2 ^ 53) :: rat)"
      by (simp only: of_nat_less_iff)
    then show ?thesis by simp
  qed
  have one: "100 * 2 ^ k < (2 :: rat) ^ 53" if "0 < ?n"
  proof -
    from that have "(1 :: rat) \<le> of_nat ?n" by (simp add: Suc_le_eq)
    then have "1 * (100 * 2 ^ k) \<le> (of_nat ?n :: rat) * (100 * 2 ^ k)"
      by (intro mult_right_mono) simp_all
    then have "100 * 2 ^ k \<le> (of_nat ?n :: rat) * 100 * 2 ^ k"
      by (simp only: mult_1 mult.assoc)
    with sizeR show ?thesis by linarith
  qed
  have exact: "costMatrix (scores sm) = map (map Finite) (exactCosts (scores sm))"
    using grid
  proof (rule costMatrix_exact)
    show "scores sm \<noteq> [] \<longrightarrow> 100 * 2 ^ k < (2 :: rat) ^ 53"
    proof
      assume "scores sm \<noteq> []"
      then have "0 < ?n" using shape(1) by (cases "scores sm") auto
      then show "100 * 2 ^ k < (2 :: rat) ^ 53" by (rule one)
    qed
  qed
  have cost: "costMatrix (scores sm) ! i ! j = Finite (100 - scores sm ! i ! j)"
    if "i < ?n" "j < length rs" for i j
  proof -
    have "length (scores sm ! i) = length rs" using shape that by (simp add: list_all_length)
    with that shape show ?thesis by (simp add: exact exactCosts_def)
  qed
  have entries: "list_all (\<lambda>s. 0 \<le> s \<and> s \<le> 100 \<and> of_int \<lfloor>s * 2 ^ k\<rfloor> = s * 2 ^ k)
      (map score (assignmentsOf team rs (scores sm) pairs))"
  proof -
    have "0 \<le> scores sm ! nat ai ! nat ri \<and> scores sm ! nat ai ! nat ri \<le> 100 \<and>
        of_int \<lfloor>scores sm ! nat ai ! nat ri * 2 ^ k\<rfloor> = scores sm ! nat ai ! nat ri * 2 ^ k"
      if "(ai, ri) \<in> set pairs" for ai ri
    proof -
      from p(3) that have b: "0 \<le> ai" "ai < int ?n" "0 \<le> ri" "ri < int (length rs)"
        by (auto simp: inBounds_def list_all_iff)
      then have i: "nat ai < length (scores sm)" using shape(1) by simp
      then have "length (scores sm ! nat ai) = length rs"
        using shape(2) by (simp add: list_all_length)
      with b have j: "nat ri < length (scores sm ! nat ai)" by simp
      from grid i j show ?thesis by (simp add: dyadicScores_def list_all_length)
    qed
    then show ?thesis by (auto simp: list_all_iff assignmentsOf_def)
  qed
  have sum: "sum_list (map score (assignmentsOf team rs (scores sm) pairs))
      = pairsSum (scores sm) pairs"
    by (simp add: pairsSum_def assignmentsOf_def comp_def case_prod_unfold)
  have total: "totalScore ta = Finite (pairsSum (scores sm) pairs)"
  proof (cases "?n = 0")
    case True
    with p(2) have "pairs = []" by simp
    then show ?thesis by (simp add: p(4) assignmentsOf_def addScores_def pairsSum_def)
  next
    case False
    then have "100 * 2 ^ k < (2 :: rat) ^ 53" using one by simp
    then have k: "k \<le> 1074" by (rule grid_bound)
    have "addScores (Finite 0) (map score (assignmentsOf team rs (scores sm) pairs))
        = Finite (0 + sum_list (map score (assignmentsOf team rs (scores sm) pairs)))"
      using entries
    proof (rule addScores_exact)
      show "(0 + 100 * of_nat (length (map score (assignmentsOf team rs (scores sm) pairs))))
          * 2 ^ k < (2 :: rat) ^ 53"
        using sizeR by (simp add: p(2) mult.commute)
    qed (simp_all add: k)
    then show ?thesis by (simp add: p(4) sum)
  qed
  have tot: "totalScore ta = Finite (sum_list (map score (assignments ta)))"
    by (simp add: total p(5) sum)
  from opt obtain c where c: "costMatrix (scores sm) = map (map Finite) c"
    and least: "\<And>ps cs'. munkres (costMatrix (scores sm)) = Pairs ps \<Longrightarrow>
      one_to_one ?n (length rs) cs' \<Longrightarrow> pairsSum c ps \<le> chosenSum c cs'"
    unfolding munkresMinimizes_def by blast
  from c exact have "c = exactCosts (scores sm)" by (simp add: map_map_Finite_eq)
  with least [OF p(1) cs]
  have "pairsSum (exactCosts (scores sm)) pairs \<le> chosenSum (exactCosts (scores sm)) cs"
    by simp
  moreover have "pairsSum (exactCosts (scores sm)) pairs
      = 100 * of_nat ?n - pairsSum (scores sm) pairs"
    using pairsSum_exactCosts [of "scores sm" "length rs" pairs] p shape by simp
  moreover have "chosenSum (exactCosts (scores sm)) cs
      = 100 * of_nat ?n - chosenSum (scores sm) cs"
    using chosenSum_exactCosts [of "scores sm" "length rs" cs] cs shape by simp
  ultimately have "chosenSum (scores sm) cs \<le> pairsSum (scores sm) pairs" by simp
  with cost p(1) total tot show ?thesis by blast
qed

theorem assignRoles_optimal_witness:
  "assignRoles scenario1_munkres 7 scenario1_team scenario1_roles scenario1_scores
     = Inr scenario1_assignment \<and>
   dyadicScores 0 (scores scenario1_scores) \<and>
   munkresMinimizes scenario1_munkres (costMatrix (scores scenario1_scores)) 2 10 \<and>
   one_to_one 2 10 [1, 0] \<and>
   chosenSum (scores scenario1_scores) [1, 0] = 20 \<and>
   totalScore scenario1_assignment = Finite 180 \<and>
   (\<exists>t. totalScore scenario1_assignment = Finite t \<and>
        chosenSum (scores scenario1_scores) [1, 0] \<le> t)"
proof -
  have n: "length (applicants scenario1_team) = 2" by (simp add: scenario1_team_def)
  have k: "length scenario1_roles = 10" by (simp add: scenario1_roles_def)
  have o: "one_to_one 2 10 [1, 0]" by (simp add: one_to_one_def)
  have s: "chosenSum (scores scenario1_scores) [1, 0] = 20"
    by (simp add: chosenSum_def scenario1_scores_def lessThan_Suc numeral_2_eq_2)
  have t: "totalScore scenario1_assignment = Finite 180"
    by (simp add: scenario1_assignment_def)
  have z: "(2 :: nat) * 100 * 2 ^ 0 < 2 ^ 53" by simp
  from assignRoles_optimal [of scenario1_munkres 7 scenario1_team scenario1_roles
      scenario1_scores scenario1_assignment 0 "[1, 0]", unfolded n k,
      OF scenario1_assignRoles scenario1_dyadic z scenario1_munkresMinimizes o]
  have "\<exists>t. totalScore scenario1_assignment = Finite t \<and>
        chosenSum (scores scenario1_scores) [1, 0] \<le> t"
    by blast
  with scenario1_assignRoles scenario1_dyadic scenario1_munkresMinimizes o s t
  show ?thesis by blast
qed


text \<open>
  C3 as stated fails: \<open>100 - score\<close> is rounded, so scores that differ by less than the
  rounding get the same cost. With \<open>t = 2^-60\<close>, the matrices [[0, t], [0, 0]] and
  [[t, 0], [0, 0]] both give munkres-js the costs [[100, 100], [100, 100]], of which every
  matching is a minimum. If it answers [[0, 0], [1, 1]], the first matrix gets the total
  0, and the other matching scores \<open>t\<close>; if it answers [[0, 1], [1, 0]], the second matrix
  gets the total 0, and the other matching scores \<open>t\<close>.
\<close>

theorem rounded_costs_counterexample:
  "costMatrix (scores tiny_scores_right)
     = [[Finite 100, Finite 100], [Finite 100, Finite 100]] \<and>
   costMatrix (scores tiny_scores_left)
     = [[Finite 100, Finite 100], [Finite 100, Finite 100]] \<and>
   munkresMinimizes diagonal_munkres (costMatrix (scores tiny_scores_right)) 2 2 \<and>
   munkresMinimizes antidiagonal_munkres (costMatrix (scores tiny_scores_left)) 2 2 \<and>
   assignRoles diagonal_munkres 7 scenario1_team tiny_roles tiny_scores_right
     = Inr \<lparr>ta_teamId = ascii ''team-1'',
            assignments =
              [\<lparr>applicantId = ascii ''member0'', roleId = ascii ''role0'', score = 0,
                justification = None\<rparr>,
               \<lparr>applicantId = ascii ''member1'', roleId = ascii ''role1'', score = 0,
                justification = None\<rparr>],
            totalScore = Finite 0, ta_generatedAt = 7, justificationsGenerated = False\<rparr> \<and>
   one_to_one 2 2 [1, 0] \<and>
   chosenSum (scores tiny_scores_right) [1, 0] = 1 / 2 ^ 60 \<and>
   assignRoles antidiagonal_munkres 7 scenario1_team tiny_roles tiny_scores_left
     = Inr \<lparr>ta_teamId = ascii ''team-1'',
            assignments =
              [\<lparr>applicantId = ascii ''member0'', roleId = ascii ''role1'', score = 0,
                justification = None\<rparr>,
               \<lparr>applicantId = ascii ''member1'', roleId = ascii ''role0'', score = 0,
                justification = None\<rparr>],
            totalScore = Finite 0, ta_generatedAt = 7, justificationsGenerated = False\<rparr> \<and>
   one_to_one 2 2 [0, 1] \<and>
   chosenSum (scores tiny_scores_left) [0, 1] = 1 / 2 ^ 60 \<and>
   (0 :: rat) < 1 / 2 ^ 60"
proof -
  note c = tiny_costMatrix
  have m1: "munkresMinimizes diagonal_munkres (costMatrix (scores tiny_scores_right)) 2 2"
    by (rule all_equal_costs_minimal [where pairs = "[(0, 0), (1, 1)]"])
      (simp_all add: c diagonal_munkres_def pairsSum_def)
  have m2: "munkresMinimizes antidiagonal_munkres (costMatrix (scores tiny_scores_left)) 2 2"
    by (rule all_equal_costs_minimal [where pairs = "[(0, 1), (1, 0)]"])
      (simp_all add: c antidiagonal_munkres_def pairsSum_def)
  have a1: "assignRoles diagonal_munkres 7 scenario1_team tiny_roles tiny_scores_right
     = Inr \<lparr>ta_teamId = ascii ''team-1'',
            assignments =
              [\<lparr>applicantId = ascii ''member0'', roleId = ascii ''role0'', score = 0,
                justification = None\<rparr>,
               \<lparr>applicantId = ascii ''member1'', roleId = ascii ''role1'', score = 0,
                justification = None\<rparr>],
            totalScore = Finite 0, ta_generatedAt = 7, justificationsGenerated = False\<rparr>"
    by (simp add: assignRoles_def diagonal_munkres_def scenario1_team_def tiny_roles_def
        tiny_scores_right_def Let_def ascii_def roundToDouble_0)
  have a2: "assignRoles antidiagonal_munkres 7 scenario1_team tiny_roles tiny_scores_left
     = Inr \<lparr>ta_teamId = ascii ''team-1'',
            assignments =
              [\<lparr>applicantId = ascii ''member0'', roleId = ascii ''role1'', score = 0,
                justification = None\<rparr>,
               \<lparr>applicantId = ascii ''member1'', roleId = ascii ''role0'', score = 0,
                justification = None\<rparr>],
            totalScore = Finite 0, ta_generatedAt = 7, justificationsGenerated = False\<rparr>"
    by (simp add: assignRoles_def antidiagonal_munkres_def scenario1_team_def tiny_roles_def
        tiny_scores_left_def Let_def ascii_def roundToDouble_0)
  have o: "one_to_one 2 2 [1, 0]" "one_to_one 2 2 [0, 1]" by (simp_all add: one_to_one_def)
  have s1: "chosenSum (scores tiny_scores_right) [1, 0] = 1 / 2 ^ 60"
    by (simp add: chosenSum_def tiny_scores_right_def lessThan_Suc numeral_2_eq_2)
  have s2: "chosenSum (scores tiny_scores_left) [0, 1] = 1 / 2 ^ 60"
    by (simp add: chosenSum_def tiny_scores_left_def lessThan_Suc numeral_2_eq_2)
  have c1: "costMatrix (scores tiny_scores_right)
     = [[Finite 100, Finite 100], [Finite 100, Finite 100]]"
    and c2: "costMatrix (scores tiny_scores_left)
     = [[Finite 100, Finite 100], [Finite 100, Finite 100]]"
    by (simp_all add: c)
  have pos: "(0 :: rat) < 1 / 2 ^ 60" by simp
  from c1 c2 m1 m2 a1 a2 o s1 s2 pos show ?thesis by blast
qed

section \<open>AssignmentHealthChecker\<close>

lemma status_names_distinct:
  "ascii ''justifying'' \<noteq> ascii ''scoring''" "ascii ''justifying'' \<noteq> ascii ''assigning''"
  "ascii ''scoring'' \<noteq> ascii ''assigning''" "ascii ''scoring'' \<noteq> ascii ''justifying''"
  "ascii ''assigning'' \<noteq> ascii ''justifying''" "ascii ''assigning'' \<noteq> ascii ''scoring''"
  by (simp_all add: ascii_def)

text \<open>
  C9. \<open>recoverStuckTeam\<close> on a stuck session: with status \<open>justifying\<close> and a non-empty
  assignment it sets the status to \<open>complete\<close> and makes no other call (the assignment
  is not written, the queue is not touched); with status \<open>justifying\<close> and no assignment,
  or status \<open>scoring\<close> or \<open>assigning\<close>, it sets the status to \<open>pending\<close> and calls
  \<open>addTeam\<close> for the team exactly once; with any other status it reports
  \<open>unknown_status\<close> without success and makes no call at all.
\<close>

theorem recoverStuckTeam_by_status:
  "(row_status row = ascii ''justifying'' \<and> hasAssignment (row_assignment row) \<longrightarrow>
      recoverStuckTeam row =
        (\<lparr>rr_success = True, rr_action = completed_without_justifications, rr_error = None\<rparr>,
         [UpdateSessionStatus (row_id row) Complete]) \<and>
      statusAfter (row_id row) (snd (recoverStuckTeam row)) Justifying = Complete \<and>
      applyToQueue now (snd (recoverStuckTeam row)) q = q) \<and>
   ((row_status row = ascii ''justifying'' \<and> \<not> hasAssignment (row_assignment row)) \<or>
    row_status row = ascii ''scoring'' \<or> row_status row = ascii ''assigning'' \<longrightarrow>
      recoverStuckTeam row =
        (\<lparr>rr_success = True, rr_action = reset_and_requeued, rr_error = None\<rparr>,
         [UpdateSessionStatus (row_id row) Pending, QueueAddTeam (row_team_id row)]) \<and>
      statusAfter (row_id row) (snd (recoverStuckTeam row)) st = Pending \<and>
      count_list (snd (recoverStuckTeam row)) (QueueAddTeam (row_team_id row)) = 1 \<and>
      applyToQueue now (snd (recoverStuckTeam row)) q = addTeam now (row_team_id row) q) \<and>
   (row_status row \<noteq> ascii ''justifying'' \<and> row_status row \<noteq> ascii ''scoring'' \<and>
    row_status row \<noteq> ascii ''assigning'' \<longrightarrow>
      rr_success (fst (recoverStuckTeam row)) = False \<and>
      rr_action (fst (recoverStuckTeam row)) = unknown_status \<and>
      snd (recoverStuckTeam row) = [] \<and>
      statusAfter (row_id row) (snd (recoverStuckTeam row)) st = st \<and>
      applyToQueue now (snd (recoverStuckTeam row)) q = q)"
  by (auto simp: recoverStuckTeam_def hasAssignment_def status_names_distinct)

theorem recoverStuckTeam_by_status_witness:
  "hasAssignment (JObj [(ascii ''teamId'', JStr (ascii ''team-1''))]) \<and>
   recoverStuckTeam (stuckRow ''justifying'' (JObj [(ascii ''teamId'', JStr (ascii ''team-1''))]))
     = (\<lparr>rr_success = True, rr_action = completed_without_justifications, rr_error = None\<rparr>,
        [UpdateSessionStatus (ascii ''session-1'') Complete]) \<and>
   \<not> hasAssignment JNull \<and>
   recoverStuckTeam (stuckRow ''justifying'' JNull)
     = (\<lparr>rr_success = True, rr_action = reset_and_requeued, rr_error = None\<rparr>,
        [UpdateSessionStatus (ascii ''session-1'') Pending, QueueAddTeam (ascii ''team-1'')]) \<and>
   recoverStuckTeam (stuckRow ''scoring'' JNull)
     = (\<lparr>rr_success = True, rr_action = reset_and_requeued, rr_error = None\<rparr>,
        [UpdateSessionStatus (ascii ''session-1'') Pending, QueueAddTeam (ascii ''team-1'')]) \<and>
   runningTeams (applyToQueue 9 (snd (recoverStuckTeam (stuckRow ''scoring'' JNull))) newQueue)
     = [ascii ''team-1''] \<and>
   snd (recoverStuckTeam (stuckRow ''pending'' JNull)) = []"
proof -
  let ?a = "JObj [(ascii ''teamId'', JStr (ascii ''team-1''))]"
  have h1: "hasAssignment ?a" by (simp add: hasAssignment_def)
  have h2: "\<not> hasAssignment JNull" by (simp add: hasAssignment_def)
  have s1: "row_status (stuckRow ''justifying'' a) = ascii ''justifying''" for a
    by (simp add: stuckRow_def)
  have s2: "row_status (stuckRow ''scoring'' a) = ascii ''scoring''" for a
    by (simp add: stuckRow_def)
  have s3: "row_status (stuckRow ''pending'' JNull) \<noteq> ascii ''justifying'' \<and>
    row_status (stuckRow ''pending'' JNull) \<noteq> ascii ''scoring'' \<and>
    row_status (stuckRow ''pending'' JNull) \<noteq> ascii ''assigning''"
    by (simp add: stuckRow_def ascii_def)
  have f: "row_id (stuckRow s a) = ascii ''session-1''" "row_team_id (stuckRow s a) = ascii ''team-1''"
    "row_assignment (stuckRow s a) = a" for s a
    by (simp_all add: stuckRow_def)
  have r: "runningTeams (addTeam 9 (ascii ''team-1'') newQueue) = [ascii ''team-1'']"
    by (simp add: addTeam_def newQueue_def startProcessing_def updateStats_def
        MAX_CONCURRENT_def Let_def runningTeams_def)
  note T1 = recoverStuckTeam_by_status [of "stuckRow ''justifying'' ?a" 9 newQueue Justifying]
  note T2 = recoverStuckTeam_by_status [of "stuckRow ''justifying'' JNull" 9 newQueue Justifying]
  note T3 = recoverStuckTeam_by_status [of "stuckRow ''scoring'' JNull" 9 newQueue Scoring]
  note T4 = recoverStuckTeam_by_status [of "stuckRow ''pending'' JNull" 9 newQueue Pending]
  have c1: "recoverStuckTeam (stuckRow ''justifying'' ?a)
     = (\<lparr>rr_success = True, rr_action = completed_without_justifications, rr_error = None\<rparr>,
        [UpdateSessionStatus (ascii ''session-1'') Complete])"
    using T1 h1 s1 f by metis
  have c2: "recoverStuckTeam (stuckRow ''justifying'' JNull)
     = (\<lparr>rr_success = True, rr_action = reset_and_requeued, rr_error = None\<rparr>,
        [UpdateSessionStatus (ascii ''session-1'') Pending, QueueAddTeam (ascii ''team-1'')])"
    using T2 h2 s1 f by metis
  have c3: "recoverStuckTeam (stuckRow ''scoring'' JNull)
     = (\<lparr>rr_success = True, rr_action = reset_and_requeued, rr_error = None\<rparr>,
        [UpdateSessionStatus (ascii ''session-1'') Pending, QueueAddTeam (ascii ''team-1'')])"
    using T3 s2 f by metis
  have c3': "applyToQueue 9 (snd (recoverStuckTeam (stuckRow ''scoring'' JNull))) newQueue
     = addTeam 9 (ascii ''team-1'') newQueue"
    using T3 s2 f by metis
  have c4: "snd (recoverStuckTeam (stuckRow ''pending'' JNull)) = []"
    using T4 s3 by blast
  from h1 h2 c1 c2 c3 c3' c4 r show ?thesis by simp
qed

section \<open>Scorer and AssignmentProcessor\<close>

lemma map_JNum_eq [simp]: "map JNum xs = map JNum ys \<longleftrightarrow> xs = ys"
  by (simp add: inj_map_eq_map inj_on_def)









lemma jsonMatch_none:
  assumes "93 \<notin> set (dropWhile (\<lambda>c. c \<noteq> 91) content)"
  shows "jsonMatch content = None"
proof -
  have "dropWhile (\<lambda>c. c \<noteq> 93) (rev (dropWhile (\<lambda>c. c \<noteq> 91) content)) = []"
    using assms by (auto simp: dropWhile_eq_Nil_conv)
  then show ?thesis by (simp add: jsonMatch_def)
qed

lemma scoreAttempt_parsed:
  assumes "content \<noteq> []" "jsonMatch content = Some jsonText" "JSON_parse jsonText = Inr v"
  shows "scoreAttempt JSON_parse now team rs (Completion content) =
     (case validateParsedScores (length (applicants team)) (length rs) v of
        Inl e \<Rightarrow> Inl e
      | Inr m \<Rightarrow> Inr \<lparr>sm_teamId = t_id team, scores = m, sm_generatedAt = now\<rparr>)"
  using assms by (simp add: scoreAttempt_def)




lemma processTeamAssignment_started:
  assumes "OPENAI_API_KEY w = Some key" "key \<noteq> []" "getTeam w = Some team" "isComplete team"
    "getOrCreateSession w = Inr session"
  shows "processTeamAssignment w =
    (let sid = s_id session;
         c1 = [UpdateSessionStatus sid Scoring, GenerateScoreMatrix]
     in case fst (generateScoreMatrix (w_parse w) (clock w) team (s_roles session) (w_llm w) 0) of
          ScoringFailed e \<Rightarrow>
            (ProcessingFailed (ScoringError e), c1 @ [UpdateSessionStatus sid Pending])
        | Scored scoreMatrix \<Rightarrow>
            let c2 = c1 @ [UpdateSessionStatus sid Assigning, AssignRoles]
            in case assignRoles (w_munkres w) (clock w) team (s_roles session) scoreMatrix of
                 Inl e \<Rightarrow>
                   (ProcessingFailed (AssignmentError e), c2 @ [UpdateSessionStatus sid Pending])
               | Inr asg \<Rightarrow>
                   let c3 = c2 @ [SaveAssignmentData sid asg (Some scoreMatrix)]
                   in case saveAssignmentData w of
                        Some err \<Rightarrow>
                          (ProcessingFailed (SaveError err), c3 @ [UpdateSessionStatus sid Pending])
                      | None \<Rightarrow>
                          (ProcessingSucceeded
                             \<lparr>pd_sessionId = sid, pd_assignment = asg,
                              justificationsPending = True\<rparr>,
                           c3 @ [UpdateSessionStatus sid Justifying,
                                 GenerateJustificationsBackground sid]))"
  using assms by (simp add: processTeamAssignment_def)

lemma processTeamAssignment_not_started:
  assumes "OPENAI_API_KEY w = None \<or> OPENAI_API_KEY w = Some [] \<or> getTeam w = None \<or>
    (\<exists>team. getTeam w = Some team \<and> \<not> isComplete team) \<or>
    (\<exists>err. getOrCreateSession w = Inl err)"
  shows "snd (processTeamAssignment w) = []"
    "\<exists>e. fst (processTeamAssignment w) = ProcessingFailed e"
  using assms
  by (auto simp: processTeamAssignment_def split: option.splits sum.splits)


lemma scenario2_content_eq:
  "scenario2_content = [91,91,53,48,44,54,48,44,55,48,93,44,91,56,48,44,57,48,93,44,91,49,48,44,50,48,44,51,48,93,93]"
  by (simp add: scenario2_content_def ascii_def)

lemma scenario2_jsonMatch: "jsonMatch scenario2_content = Some scenario2_content"
  unfolding scenario2_content_eq by (simp add: jsonMatch_def)

lemma scenario2_attempt:
  "scoreAttempt scenario2_parse 0 scenario2_team scenario2_roles (Completion scenario2_content)
     = Inl (WrongRowLength 1 3)"
proof -
  have ne: "scenario2_content \<noteq> []" by (simp add: scenario2_content_eq)
  have p: "scenario2_parse scenario2_content =
     Inr (JArr [JArr [JNum 50, JNum 60, JNum 70], JArr [JNum 80, JNum 90],
                      JArr [JNum 10, JNum 20, JNum 30]])"
    by (simp add: scenario2_parse_def)
  show ?thesis
    by (simp add: scoreAttempt_parsed [of scenario2_content scenario2_content scenario2_parse,
          OF ne scenario2_jsonMatch p] scenario2_team_def scenario2_roles_def)
qed

lemma row_message_not_retryable:
  "\<not> isRetryableError (message (WrongRowLength 1 3))"
  by (simp add: isRetryableError_def toLowerCase_def ascii_def decimal.simps Let_def)

lemma scenario2_scoring:
  "generateScoreMatrix scenario2_parse 0 scenario2_team scenario2_roles
     (\<lambda>k. Completion scenario2_content) 0
   = (ScoringFailed (AfterRetries 0 (WrongRowLength 1 3)), 1)"
proof -
  have c: "isComplete scenario2_team" "\<not> length scenario2_roles < length (applicants scenario2_team)"
    by (simp_all add: scenario2_team_def scenario2_roles_def)
  show ?thesis
    unfolding generateScoreMatrix_def
    by (subst generateScoreMatrixWithRetry.simps)
       (simp add: c scenario2_attempt row_message_not_retryable del: message.simps One_nat_def)
qed




lemma statusAfter_rollback [simp]:
  "statusAfter sid (cs @ [UpdateSessionStatus sid st']) st = st'"
  by (induction sid cs st rule: statusAfter.induct) simp_all

lemma scenario2_world_fields:
  "OPENAI_API_KEY scenario2_world = Some (ascii ''sk-test'')"
  "ascii ''sk-test'' \<noteq> []"
  "getTeam scenario2_world = Some scenario2_team"
  "isComplete scenario2_team"
  "getOrCreateSession scenario2_world = Inr scenario2_session"
  "w_parse scenario2_world = scenario2_parse"
  "w_llm scenario2_world = (\<lambda>k. Completion scenario2_content)"
  "clock scenario2_world = 0"
  "s_roles scenario2_session = scenario2_roles"
  "s_id scenario2_session = ascii ''session-2''"
  by (simp_all add: scenario2_world_def getOrCreateSession_def scenario2_team_def
      scenario2_session_def ascii_def)

lemma scenario2_scoring_fst:
  "fst (generateScoreMatrix (w_parse scenario2_world) (clock scenario2_world) scenario2_team
          (s_roles scenario2_session) (w_llm scenario2_world) 0)
   = ScoringFailed (AfterRetries 0 (WrongRowLength 1 3))"
  by (simp only: scenario2_world_fields scenario2_scoring fst_conv)


text \<open>
  C6. A run of \<open>processTeamAssignment\<close> for a team that is not complete returns a
  failure and makes no call, so no status update. A run that has started (key, team and
  session in hand) and whose Scorer fails, or whose Assigner fails, or whose
  \<open>saveAssignmentData\<close> fails, returns the failure to the caller and ends with the status
  written back to \<open>pending\<close>; so does every run that returns a failure after the session
  is in hand, and \<open>triggerAutoAssignment\<close> then rejects, which is what the queue sees.
\<close>

theorem processTeamAssignment_rolls_back:
  "(OPENAI_API_KEY w = Some key \<and> key \<noteq> [] \<and> getTeam w = Some team \<and> \<not> isComplete team \<longrightarrow>
      processTeamAssignment w = (ProcessingFailed TeamNotComplete, []) \<and>
      fst (triggerAutoAssignment w) = False) \<and>
   (OPENAI_API_KEY w = Some key \<and> key \<noteq> [] \<and> getTeam w = Some team \<and> isComplete team \<and>
    getOrCreateSession w = Inr session \<longrightarrow>
      (fst (generateScoreMatrix (w_parse w) (clock w) team (s_roles session) (w_llm w) 0)
         = ScoringFailed e1 \<longrightarrow>
       fst (processTeamAssignment w) = ProcessingFailed (ScoringError e1) \<and>
       statusAfter (s_id session) (snd (processTeamAssignment w)) st = Pending) \<and>
      (fst (generateScoreMatrix (w_parse w) (clock w) team (s_roles session) (w_llm w) 0)
         = Scored sm \<and>
       assignRoles (w_munkres w) (clock w) team (s_roles session) sm = Inl e2 \<longrightarrow>
       fst (processTeamAssignment w) = ProcessingFailed (AssignmentError e2) \<and>
       statusAfter (s_id session) (snd (processTeamAssignment w)) st = Pending) \<and>
      (fst (generateScoreMatrix (w_parse w) (clock w) team (s_roles session) (w_llm w) 0)
         = Scored sm \<and>
       assignRoles (w_munkres w) (clock w) team (s_roles session) sm = Inr asg \<and>
       saveAssignmentData w = Some e3 \<longrightarrow>
       fst (processTeamAssignment w) = ProcessingFailed (SaveError e3) \<and>
       statusAfter (s_id session) (snd (processTeamAssignment w)) st = Pending) \<and>
      (fst (processTeamAssignment w) = ProcessingFailed err \<longrightarrow>
       statusAfter (s_id session) (snd (processTeamAssignment w)) st = Pending \<and>
       fst (triggerAutoAssignment w) = False))"
proof (intro conjI impI)
  assume "OPENAI_API_KEY w = Some key \<and> key \<noteq> [] \<and> getTeam w = Some team \<and> \<not> isComplete team"
  then show "processTeamAssignment w = (ProcessingFailed TeamNotComplete, [])"
    by (simp add: processTeamAssignment_def)
  then show "fst (triggerAutoAssignment w) = False"
    by (simp add: triggerAutoAssignment_def)
next
  assume a: "OPENAI_API_KEY w = Some key \<and> key \<noteq> [] \<and> getTeam w = Some team \<and> isComplete team \<and>
    getOrCreateSession w = Inr session"
  then have s: "processTeamAssignment w =
    (let sid = s_id session;
         c1 = [UpdateSessionStatus sid Scoring, GenerateScoreMatrix]
     in case fst (generateScoreMatrix (w_parse w) (clock w) team (s_roles session) (w_llm w) 0) of
          ScoringFailed e \<Rightarrow>
            (ProcessingFailed (ScoringError e), c1 @ [UpdateSessionStatus sid Pending])
        | Scored scoreMatrix \<Rightarrow>
            let c2 = c1 @ [UpdateSessionStatus sid Assigning, AssignRoles]
            in case assignRoles (w_munkres w) (clock w) team (s_roles session) scoreMatrix of
                 Inl e \<Rightarrow>
                   (ProcessingFailed (AssignmentError e), c2 @ [UpdateSessionStatus sid Pending])
               | Inr asg \<Rightarrow>
                   let c3 = c2 @ [SaveAssignmentData sid asg (Some scoreMatrix)]
                   in case saveAssignmentData w of
                        Some err \<Rightarrow>
                          (ProcessingFailed (SaveError err), c3 @ [UpdateSessionStatus sid Pending])
                      | None \<Rightarrow>
                          (ProcessingSucceeded
                             \<lparr>pd_sessionId = sid, pd_assignment = asg,
                              justificationsPending = True\<rparr>,
                           c3 @ [UpdateSessionStatus sid Justifying,
                                 GenerateJustificationsBackground sid]))"
    by (intro processTeamAssignment_started [of w key team session]) blast+
  {
    assume "fst (generateScoreMatrix (w_parse w) (clock w) team (s_roles session) (w_llm w) 0)
         = ScoringFailed e1"
    then show "fst (processTeamAssignment w) = ProcessingFailed (ScoringError e1)"
      "statusAfter (s_id session) (snd (processTeamAssignment w)) st = Pending"
      by (simp_all add: s Let_def)
  }
  {
    assume "fst (generateScoreMatrix (w_parse w) (clock w) team (s_roles session) (w_llm w) 0)
         = Scored sm \<and>
       assignRoles (w_munkres w) (clock w) team (s_roles session) sm = Inl e2"
    then show "fst (processTeamAssignment w) = ProcessingFailed (AssignmentError e2)"
      "statusAfter (s_id session) (snd (processTeamAssignment w)) st = Pending"
      by (simp_all add: s Let_def)
  }
  {
    assume "fst (generateScoreMatrix (w_parse w) (clock w) team (s_roles session) (w_llm w) 0)
         = Scored sm \<and>
       assignRoles (w_munkres w) (clock w) team (s_roles session) sm = Inr asg \<and>
       saveAssignmentData w = Some e3"
    then show "fst (processTeamAssignment w) = ProcessingFailed (SaveError e3)"
      "statusAfter (s_id session) (snd (processTeamAssignment w)) st = Pending"
      by (simp_all add: s Let_def)
  }
  {
    assume f: "fst (processTeamAssignment w) = ProcessingFailed err"
    then show "statusAfter (s_id session) (snd (processTeamAssignment w)) st = Pending"
      by (auto simp: s Let_def split: scoring_result.splits sum.splits option.splits)
    from f show "fst (triggerAutoAssignment w) = False"
      by (cases "processTeamAssignment w") (simp add: triggerAutoAssignment_def)
  }
qed


theorem processTeamAssignment_rolls_back_witness:
  "fst (processTeamAssignment scenario2_world)
     = ProcessingFailed (ScoringError (AfterRetries 0 (WrongRowLength 1 3))) \<and>
   statusAfter (ascii ''session-2'') (snd (processTeamAssignment scenario2_world)) Pending
     = Pending \<and>
   fst (triggerAutoAssignment scenario2_world) = False \<and>
   processTeamAssignment
     (scenario2_world\<lparr>getTeam := Some (scenario2_team\<lparr>isComplete := False\<rparr>)\<rparr>)
     = (ProcessingFailed TeamNotComplete, [])"
proof -
  note T = processTeamAssignment_rolls_back [of scenario2_world "ascii ''sk-test''"
      scenario2_team scenario2_session "AfterRetries 0 (WrongRowLength 1 3)" Pending _ _ _ _
      "ScoringError (AfterRetries 0 (WrongRowLength 1 3))"]
  have a: "fst (processTeamAssignment scenario2_world)
     = ProcessingFailed (ScoringError (AfterRetries 0 (WrongRowLength 1 3)))"
    using T scenario2_world_fields(1-5) scenario2_scoring_fst by blast
  have b: "statusAfter (s_id scenario2_session) (snd (processTeamAssignment scenario2_world)) Pending
     = Pending"
    using T scenario2_world_fields(1-5) scenario2_scoring_fst by blast
  have c: "fst (triggerAutoAssignment scenario2_world) = False"
    using T scenario2_world_fields(1-5) a by blast
  let ?w = "scenario2_world\<lparr>getTeam := Some (scenario2_team\<lparr>isComplete := False\<rparr>)\<rparr>"
  have f: "OPENAI_API_KEY ?w = Some (ascii ''sk-test'')"
    "getTeam ?w = Some (scenario2_team\<lparr>isComplete := False\<rparr>)"
    "\<not> isComplete (scenario2_team\<lparr>isComplete := False\<rparr>)"
    by (simp_all add: scenario2_world_def)
  have d: "processTeamAssignment ?w = (ProcessingFailed TeamNotComplete, [])"
    using processTeamAssignment_rolls_back [of ?w "ascii ''sk-test''"
        "scenario2_team\<lparr>isComplete := False\<rparr>"] f scenario2_world_fields(2)
    by blast
  from a b c d show ?thesis by (simp only: scenario2_world_fields)
qed






section \<open>JustifierService, JustifierRunner and the background task\<close>

lemma length_trim: "length (trim s) \<le> length s"
proof -
  have "length (dropWhile P xs) \<le> length xs" for P and xs :: "nat list"
    by (induction xs) auto
  then have "length (dropWhile isWhiteSpace (rev (dropWhile isWhiteSpace s)))
      \<le> length (rev (dropWhile isWhiteSpace s))"
    and "length (dropWhile isWhiteSpace s) \<le> length s"
    by blast+
  then show ?thesis by (simp add: trim_def)
qed

lemma collectJustifications_tooLong:
  "\<exists>entry \<in> set entries. tooLong entry \<Longrightarrow>
   \<exists>e. collectJustifications asgs names entries jm = Inl e"
proof (induction entries arbitrary: jm)
  case Nil
  then show ?case by simp
next
  case (Cons entry entries)
  show ?case
  proof (cases "tooLong entry")
    case True
    then obtain str where t: "getProp entry (ascii ''justification'') = Some (JStr str)"
      "length str > 500"
      by (auto simp: tooLong_def split: option.splits json.splits)
    then show ?thesis by (auto simp: Let_def)
  next
    case False
    with Cons.prems have "\<exists>entry \<in> set entries. tooLong entry" by simp
    from Cons.IH [OF this] show ?thesis
      by (auto simp: Let_def split: option.splits json.splits)
  qed
qed

lemma collectJustifications_bounded:
  "collectJustifications asgs names entries jm = Inr jm' \<Longrightarrow>
   (\<forall>k t. jm k = Some t \<longrightarrow> length t \<le> 500) \<Longrightarrow>
   (\<forall>k t. jm' k = Some t \<longrightarrow> length t \<le> 500)"
proof (induction entries arbitrary: jm)
  case Nil
  then show ?case by simp
next
  case (Cons entry entries)
  from Cons.prems(1) obtain str where t: "getProp entry (ascii ''justification'') = Some (JStr str)"
    "length str \<le> 500"
    by (auto simp: Let_def split: if_splits option.splits json.splits)
  from Cons.prems(1) t obtain key where
    rec: "collectJustifications asgs names entries (jm(key \<mapsto> trim str)) = Inr jm'"
    by (auto simp: Let_def split: if_splits)
  have "length (trim str) \<le> 500" using length_trim [of str] t(2) by simp
  with Cons.prems(2) have "\<forall>k t. (jm(key \<mapsto> trim str)) k = Some t \<longrightarrow> length t \<le> 500"
    by auto
  from Cons.IH [OF rec this] show ?case .
qed

lemma applyJustifications_justified:
  "applyJustifications jm asgs = Inr updated \<Longrightarrow>
   (\<forall>k t. jm k = Some t \<longrightarrow> length t \<le> 500) \<Longrightarrow>
   list_all justified updated \<and> length updated = length asgs \<and>
   map (\<lambda>a. a\<lparr>justification := None\<rparr>) updated = map (\<lambda>a. a\<lparr>justification := None\<rparr>) asgs"
proof (induction asgs arbitrary: updated)
  case Nil
  then show ?case by simp
next
  case (Cons a asgs)
  from Cons.prems(1) obtain str rest where
    t: "jm (JStr (applicantId a)) = Some str" "str \<noteq> []"
    and r: "applyJustifications jm asgs = Inr rest"
    and u: "updated = a\<lparr>justification := Some str\<rparr> # rest"
    by (auto split: option.splits if_splits sum.splits)
  from Cons.prems(2) t have "length str \<le> 500" by blast
  with Cons.IH [OF r Cons.prems(2)] t u show ?case by (simp add: justified_def)
qed

lemma matchJustifications_Inr:
  assumes "matchJustifications team asg parsed = Inr updated"
  shows "list_all justified (assignments updated)"
    "length (assignments updated) = length (assignments asg)"
    "map (\<lambda>a. a\<lparr>justification := None\<rparr>) (assignments updated)
       = map (\<lambda>a. a\<lparr>justification := None\<rparr>) (assignments asg)"
    "justificationsGenerated updated" "totalScore updated = totalScore asg"
    "\<exists>entries. parsed = JArr entries \<and> length entries = length (assignments asg) \<and>
       (\<forall>entry \<in> set entries. \<not> tooLong entry)"
proof -
  from assms obtain entries jm upd where
    p: "parsed = JArr entries" "length entries = length (assignments asg)"
    and c: "collectJustifications (assignments asg)
              (buildNameToIdMap team (assignments asg) Map.empty) entries Map.empty = Inr jm"
    and a: "applyJustifications jm (assignments asg) = Inr upd"
    and u: "updated = asg\<lparr>assignments := upd, justificationsGenerated := True\<rparr>"
    by (auto simp: matchJustifications_def Let_def split: json.splits if_splits sum.splits)
  have b: "\<forall>k t. jm k = Some t \<longrightarrow> length t \<le> 500"
    using collectJustifications_bounded [OF c] by simp
  note J = applyJustifications_justified [OF a b]
  show "list_all justified (assignments updated)" using J by (simp add: u)
  show "length (assignments updated) = length (assignments asg)" using J by (simp add: u)
  show "map (\<lambda>a. a\<lparr>justification := None\<rparr>) (assignments updated)
       = map (\<lambda>a. a\<lparr>justification := None\<rparr>) (assignments asg)" using J by (simp add: u)
  show "justificationsGenerated updated" by (simp add: u)
  show "totalScore updated = totalScore asg" by (simp add: u)
  have "\<not> (\<exists>entry \<in> set entries. tooLong entry)"
    using collectJustifications_tooLong [of entries "assignments asg"
        "buildNameToIdMap team (assignments asg) Map.empty" Map.empty] c by auto
  with p show "\<exists>entries. parsed = JArr entries \<and> length entries = length (assignments asg) \<and>
       (\<forall>entry \<in> set entries. \<not> tooLong entry)" by blast
qed

text \<open>
  First half of C8: a justification longer than 500 characters, or an entry left
  without justification, makes the call fail: a successful call has parsed an array in
  which no justification is longer than 500, and returns the assignment with every
  entry justified (by the trimmed text, never cut) and nothing else changed.
\<close>

lemma generateJustifications_Justified:
  assumes "fst (generateJustifications JSON_parse team rs asg reply) = Inr (Justified updated)"
  shows "list_all justified (assignments updated) \<and>
     map (\<lambda>a. a\<lparr>justification := None\<rparr>) (assignments updated)
       = map (\<lambda>a. a\<lparr>justification := None\<rparr>) (assignments asg) \<and>
     justificationsGenerated updated \<and>
     (\<exists>content jsonText entries. reply = Completion content \<and>
        jsonMatch content = Some jsonText \<and> JSON_parse jsonText = Inr (JArr entries) \<and>
        length entries = length (assignments asg) \<and> (\<forall>entry \<in> set entries. \<not> tooLong entry))"
proof -
  from assms obtain content jsonText parsed where
    r: "reply = Completion content" "jsonMatch content = Some jsonText"
      "JSON_parse jsonText = Inr parsed"
    and m: "matchJustifications team asg parsed = Inr updated"
    by (auto simp: generateJustifications_def justifyAttempt_def
        split: if_splits llm_reply.splits option.splits sum.splits prod.splits)
  from matchJustifications_Inr [OF m] r show ?thesis by blast
qed

lemma generateJustifications_returns:
  "\<exists>result calls. generateJustifications JSON_parse team rs asg reply = (Inr result, calls) \<and>
     calls \<le> 1"
  by (auto simp: generateJustifications_def justifyAttempt_def split: sum.splits prod.splits)

lemma generateJustificationsWithRetry_once:
  assumes "generateJustifications JSON_parse team rs asg (llm k) = (Inr result, calls)"
  shows "generateJustificationsWithRetry JSON_parse team rs asg llm k retryNo
     = (result, k + calls)"
  by (subst generateJustificationsWithRetry.simps) (simp add: assms)


lemma scenario1_promptBuilds:
  "promptBuilds scenario1_team scenario1_roles scenario1_assignment"
  by (simp add: promptBuilds_def scenario1_team_def scenario1_roles_eq scenario1_assignment_def
      ascii_def)

lemma scenario1_unavailable:
  "generateJustifications JSON_parse scenario1_team scenario1_roles scenario1_assignment
     (Status 503 (ascii ''Service Unavailable''))
   = (Inr (JustifyFailed (JustifyApiError 503 (ascii ''Service Unavailable''))), 1)"
proof -
  have l: "length (assignments scenario1_assignment) = length (applicants scenario1_team)"
    by (simp add: scenario1_assignment_def scenario1_team_def)
  show ?thesis
    by (simp add: generateJustifications_def justifyAttempt_def l scenario1_promptBuilds)
qed

text \<open>
  C8 (fails on the code, in its second half). \<open>generateJustifications\<close> catches every
  error itself and returns a result, so the \<open>catch\<close> of
  \<open>generateJustificationsWithRetry\<close> is never entered: whatever the endpoint answers,
  the wrapper returns the result of the one call, after at most one call of the
  endpoint, whatever the retry count. With the endpoint answering HTTP 503, an error
  \<open>isRetryableError\<close> classifies as retryable, the wrapper returns the failure after
  one call.
\<close>

theorem justification_retry_never_runs:
  "(\<exists>result calls.
      generateJustifications JSON_parse team rs asg (llm k) = (Inr result, calls) \<and>
      calls \<le> 1 \<and>
      generateJustificationsWithRetry JSON_parse team rs asg llm k retryNo
        = (result, k + calls)) \<and>
   isRetryableError (ascii ''OpenAI API error: 503 - Service Unavailable'') \<and>
   generateJustificationsWithRetry JSON_parse scenario1_team scenario1_roles
       scenario1_assignment (\<lambda>k. Status 503 (ascii ''Service Unavailable'')) 0 0
     = (JustifyFailed (JustifyApiError 503 (ascii ''Service Unavailable'')), 1)"
proof (intro conjI)
  obtain result calls where
    g: "generateJustifications JSON_parse team rs asg (llm k) = (Inr result, calls)"
      "calls \<le> 1"
    using generateJustifications_returns by blast
  from g generateJustificationsWithRetry_once [of JSON_parse team rs asg llm k result calls retryNo]
  show "\<exists>result calls.
      generateJustifications JSON_parse team rs asg (llm k) = (Inr result, calls) \<and>
      calls \<le> 1 \<and>
      generateJustificationsWithRetry JSON_parse team rs asg llm k retryNo
        = (result, k + calls)"
    by blast
next
  show "isRetryableError (ascii ''OpenAI API error: 503 - Service Unavailable'')"
    by (simp add: isRetryableError_def toLowerCase_def ascii_def Let_def)
next
  show "generateJustificationsWithRetry JSON_parse scenario1_team scenario1_roles
       scenario1_assignment (\<lambda>k. Status 503 (ascii ''Service Unavailable'')) 0 0
     = (JustifyFailed (JustifyApiError 503 (ascii ''Service Unavailable'')), 1)"
    using generateJustificationsWithRetry_once [of JSON_parse scenario1_team scenario1_roles
        scenario1_assignment "\<lambda>k. Status 503 (ascii ''Service Unavailable'')" 0 _ 1 0]
      scenario1_unavailable [of JSON_parse]
    by simp
qed

lemma statusAfter_append:
  "statusAfter sid (cs @ ds) st = statusAfter sid ds (statusAfter sid cs st)"
  by (induction sid cs st rule: statusAfter.induct) simp_all

lemma processTeamAssignment_success_justifying:
  assumes "processTeamAssignment w = (ProcessingSucceeded d, cs)"
  shows "statusAfter (pd_sessionId d) cs st = Justifying"
    "GenerateJustificationsBackground (pd_sessionId d) \<in> set cs"
  using assms
  by (auto simp: processTeamAssignment_def Let_def
      split: option.splits if_splits sum.splits scoring_result.splits)

text \<open>
  Every way the background task ends but one writes \<open>complete\<close>.
\<close>

lemma generateJustificationsBackground_completes:
  assumes "fetched \<noteq> None \<or> (\<forall>updated. race \<noteq> RaceResult (Justified updated))"
  shows "statusAfter sid (generateJustificationsBackground sid race fetched) st = Complete"
  using assms
  by (cases race; cases fetched)
     (auto simp: generateJustificationsBackground_def split: justify_result.splits)

text \<open>
  C1 (fails on the code). When the justification succeeds and
  \<open>getAssignmentSession(sessionId)\<close> returns \<open>null\<close>, the background task makes no call:
  the status the pipeline set to \<open>justifying\<close> stays.
\<close>

theorem background_success_without_session_stays_justifying:
  "generateJustificationsBackground sid (RaceResult (Justified updated)) None = [] \<and>
   statusAfter sid
     (cs @ [UpdateSessionStatus sid Justifying, GenerateJustificationsBackground sid] @
      generateJustificationsBackground sid (RaceResult (Justified updated)) None) st
     = Justifying"
  by (simp add: generateJustificationsBackground_def statusAfter_append)

end
